theory Spec2Isabelle
  imports Complex_Main "HOL-Library.Word"
begin

unbundle bit_operations_syntax

section \<open>The REIL emulator of pyopenreil (VM.py)\<close>

text \<open>
  The development follows \<^verbatim>\<open>src/pyopenreil/VM.py\<close> (Python 2). Python integers are
  unbounded and are modelled by \<open>int\<close>; a byte of a Python 2 \<^verbatim>\<open>str\<close> is an
  \<open>8 word\<close>; a dictionary is a map. Every exception of the source is a constructor of
  \<open>error\<close>. Objects are mutated in place in the source, so a function that can raise
  returns the state it has reached together with the exception: what was written before
  the \<^verbatim>\<open>raise\<close> stays written.
\<close>

subsection \<open>Exceptions\<close>

datatype error =
    MemReadError int
  | MemWriteError int
  | CpuReadError int nat
  | CpuInstructionError int nat
  | KeyError
  | TypeError
  | AttributeError
  | IndexError
  | StructError
  | ZeroDivisionError

text \<open>
  \<^verbatim>\<open>CpuError.__init__(self, addr, inum = 0)\<close>: both subclasses carry an address and an
  instruction number; \<^verbatim>\<open>MemError\<close> carries an address. The other constructors are
  the built-in exceptions of Python that the code can run into.
\<close>

fun is_CpuError :: "error \<Rightarrow> bool" where
  "is_CpuError (CpuReadError a n) = True"
| "is_CpuError (CpuInstructionError a n) = True"
| "is_CpuError e = False"

fun CpuError_addr :: "error \<Rightarrow> int" where
  "CpuError_addr (CpuReadError a n) = a"
| "CpuError_addr (CpuInstructionError a n) = a"
| "CpuError_addr e = 0"

subsection \<open>Widths, operands, opcodes (constants of REIL.py)\<close>

datatype width = U1 | U8 | U16 | U32 | U64

datatype arg_kind = A_NONE | A_REG | A_TEMP | A_CONST

datatype opcode =
    I_NONE | I_JCC | I_STM | I_LDM
  | I_STR | I_ADD | I_SUB | I_NEG | I_MUL | I_DIV | I_MOD
  | I_SMUL | I_SDIV | I_SMOD | I_SHL | I_SHR
  | I_AND | I_OR | I_XOR | I_NOT | I_EQ | I_LT
  | I_UNKNOWN nat

text \<open>\<open>I_UNKNOWN k\<close> stands for an opcode number that is not in \<^verbatim>\<open>REIL_INSN\<close>.\<close>

record Arg =
  arg_type :: arg_kind
  arg_size :: width
  arg_name :: "string option"
  arg_val :: int

fun width_bits :: "width \<Rightarrow> nat" where
  "width_bits U1 = 1"
| "width_bits U8 = 8"
| "width_bits U16 = 16"
| "width_bits U32 = 32"
| "width_bits U64 = 64"

definition get_val :: "Arg \<Rightarrow> int" where
  \<comment> \<open>Modelled from the spec: \<^verbatim>\<open>Arg.get_val\<close> of REIL.py, which is not among the
      sources. The spec: an operand of width W exposes the low W bits of its value,
      and U1 holds a boolean (0 or 1).\<close>
  "get_val a = arg_val a mod 2 ^ width_bits (arg_size a)"

definition mk_const :: "width \<Rightarrow> int \<Rightarrow> Arg" where
  \<comment> \<open>\<^verbatim>\<open>Arg(A_CONST, size, val = v)\<close>\<close>
  "mk_const w v = \<lparr>arg_type = A_CONST, arg_size = w, arg_name = None, arg_val = v\<rparr>"

subsection \<open>numpy scalars\<close>

text \<open>
  \<^verbatim>\<open>Math\<close> computes on numpy scalars. A scalar is modelled by its bit width and its
  value, an \<open>int\<close> in the range of the type, with the wrap-around written out:
  \<^item> \<^verbatim>\<open>numpy.uintN(x)\<close> keeps \<open>x mod 2 ^ N\<close>, \<^verbatim>\<open>numpy.intN(u)\<close> reads the same N
    bits as two's complement;
  \<^item> two scalars of the same kind and different widths are promoted to the wider one;
  \<^item> \<^verbatim>\<open>+ - * << ~\<close> and unary minus wrap to the width of the result;
  \<^item> \<^verbatim>\<open>/\<close> of two integer scalars is, in Python 2, numpy's integer division, which
    rounds towards minus infinity, and \<^verbatim>\<open>%\<close> takes the sign of the divisor, as
    Python's own operators do;
  \<^item> a zero divisor makes \<^verbatim>\<open>/\<close> and \<^verbatim>\<open>%\<close> return 0 (numpy sets a floating point
    status flag, which by default prints a RuntimeWarning: nothing is raised);
  \<^item> \<^verbatim>\<open>.item()\<close> gives the value back as a Python number.
\<close>

type_synonym np_scalar = "nat \<times> int"

fun np_bits :: "width \<Rightarrow> nat" where
  \<comment> \<open>the tables of \<^verbatim>\<open>val_u\<close> and \<^verbatim>\<open>val_s\<close>: U1 and U8 both map to an 8-bit type\<close>
  "np_bits U1 = 8"
| "np_bits U8 = 8"
| "np_bits U16 = 16"
| "np_bits U32 = 32"
| "np_bits U64 = 64"

definition wrap_u :: "nat \<Rightarrow> int \<Rightarrow> int" where
  "wrap_u n x = x mod 2 ^ n"

definition wrap_s :: "nat \<Rightarrow> int \<Rightarrow> int" where
  "wrap_s n x = (x + 2 ^ (n - 1)) mod 2 ^ n - 2 ^ (n - 1)"

definition np_div :: "int \<Rightarrow> int \<Rightarrow> int" where
  "np_div x y = (if y = 0 then 0 else x div y)"

definition np_mod :: "int \<Rightarrow> int \<Rightarrow> int" where
  "np_mod x y = (if y = 0 then 0 else x mod y)"

definition np_binop ::
  "(nat \<Rightarrow> int \<Rightarrow> int \<Rightarrow> int) \<Rightarrow> np_scalar option \<Rightarrow> np_scalar option \<Rightarrow> error + int" where
  \<comment> \<open>an arithmetic or bitwise operator on two scalars; an operand that is
      \<^verbatim>\<open>None\<close> is a TypeError\<close>
  "np_binop f x y =
     (case x of
        None \<Rightarrow> Inl TypeError
      | Some (n, u) \<Rightarrow>
          (case y of
             None \<Rightarrow> Inl TypeError
           | Some (m, v) \<Rightarrow> Inr (f (max n m) u v)))"

definition np_unop :: "(nat \<Rightarrow> int \<Rightarrow> int) \<Rightarrow> np_scalar option \<Rightarrow> error + int" where
  "np_unop f x = (case x of None \<Rightarrow> Inl TypeError | Some (n, u) \<Rightarrow> Inr (f n u))"

definition np_eq :: "np_scalar option \<Rightarrow> np_scalar option \<Rightarrow> error + int" where
  \<comment> \<open>\<^verbatim>\<open>(x == y).item()\<close>: with an operand that is \<^verbatim>\<open>None\<close> the comparison gives a
      plain Python bool, which has no method \<^verbatim>\<open>item\<close>\<close>
  "np_eq x y =
     (case x of
        None \<Rightarrow> Inl AttributeError
      | Some (n, u) \<Rightarrow>
          (case y of
             None \<Rightarrow> Inl AttributeError
           | Some (m, v) \<Rightarrow> Inr (if u = v then 1 else 0)))"

definition np_lt :: "np_scalar option \<Rightarrow> np_scalar option \<Rightarrow> error + int" where
  \<comment> \<open>\<^verbatim>\<open>(x < y).item()\<close>: Python 2 orders \<^verbatim>\<open>None\<close> below every number, and numpy
      compares a scalar with \<^verbatim>\<open>None\<close> as objects; \<^verbatim>\<open>None < None\<close> is a plain bool\<close>
  "np_lt x y =
     (case x of
        None \<Rightarrow> (case y of None \<Rightarrow> Inl AttributeError | Some (m, v) \<Rightarrow> Inr 1)
      | Some (n, u) \<Rightarrow>
          (case y of
             None \<Rightarrow> Inr 0
           | Some (m, v) \<Rightarrow> Inr (if u < v then 1 else 0)))"

subsection \<open>Math\<close>

record Math =
  math_a :: "Arg option"
  math_b :: "Arg option"

definition val_u :: "Arg option \<Rightarrow> np_scalar option" where
  "val_u arg =
     (case arg of
        None \<Rightarrow> None
      | Some a \<Rightarrow> Some (np_bits (arg_size a), wrap_u (np_bits (arg_size a)) (get_val a)))"

definition val_s :: "Arg option \<Rightarrow> np_scalar option" where
  "val_s arg =
     (case val_u arg of
        None \<Rightarrow> None
      | Some (n, u) \<Rightarrow> Some (n, wrap_s n u))"

fun Math_op :: "opcode \<Rightarrow> Arg option \<Rightarrow> Arg option \<Rightarrow> error + int" where
  "Math_op I_STR a b = (case a of None \<Rightarrow> Inl AttributeError | Some x \<Rightarrow> Inr (get_val x))"
| "Math_op I_ADD a b = np_binop (\<lambda>n x y. wrap_u n (x + y)) (val_u a) (val_u b)"
| "Math_op I_SUB a b = np_binop (\<lambda>n x y. wrap_u n (x - y)) (val_u a) (val_u b)"
| "Math_op I_NEG a b = np_unop (\<lambda>n x. wrap_u n (- x)) (val_u a)"
| "Math_op I_MUL a b = np_binop (\<lambda>n x y. wrap_u n (x * y)) (val_u a) (val_u b)"
| "Math_op I_DIV a b = np_binop (\<lambda>n x y. wrap_u n (np_div x y)) (val_u a) (val_u b)"
| "Math_op I_MOD a b = np_binop (\<lambda>n x y. wrap_u n (np_mod x y)) (val_u a) (val_u b)"
| "Math_op I_SMUL a b = np_binop (\<lambda>n x y. wrap_s n (x * y)) (val_s a) (val_s b)"
| "Math_op I_SDIV a b = np_binop (\<lambda>n x y. wrap_s n (np_div x y)) (val_s a) (val_s b)"
| "Math_op I_SMOD a b = np_binop (\<lambda>n x y. wrap_s n (np_mod x y)) (val_s a) (val_s b)"
| "Math_op I_SHL a b = np_binop (\<lambda>n x y. wrap_u n (x * 2 ^ nat y)) (val_u a) (val_u b)"
| "Math_op I_SHR a b = np_binop (\<lambda>n x y. wrap_u n (x div 2 ^ nat y)) (val_u a) (val_u b)"
| "Math_op I_AND a b = np_binop (\<lambda>n x y. wrap_u n (x AND y)) (val_u a) (val_u b)"
| "Math_op I_OR a b = np_binop (\<lambda>n x y. wrap_u n (x OR y)) (val_u a) (val_u b)"
| "Math_op I_XOR a b = np_binop (\<lambda>n x y. wrap_u n (x XOR y)) (val_u a) (val_u b)"
| "Math_op I_NOT a b = np_unop (\<lambda>n x. wrap_u n (- x - 1)) (val_u a)"
| "Math_op I_EQ a b = np_eq (val_u a) (val_u b)"
| "Math_op I_LT a b = np_lt (val_u a) (val_u b)"
| "Math_op I_NONE a b = Inl KeyError"
| "Math_op I_JCC a b = Inl KeyError"
| "Math_op I_STM a b = Inl KeyError"
| "Math_op I_LDM a b = Inl KeyError"
| "Math_op (I_UNKNOWN k) a b = Inl KeyError"

text \<open>
  The table of \<^verbatim>\<open>Math.eval\<close>, one equation for each key; an opcode that is not a
  key is a KeyError. \<^verbatim>\<open>I_EQ\<close> and \<^verbatim>\<open>I_LT\<close> give a Python bool, written here as the
  integer it is (\<^verbatim>\<open>True == 1\<close>).
\<close>

definition Math_eval :: "Math \<Rightarrow> opcode \<Rightarrow> Arg option \<Rightarrow> Arg option \<Rightarrow> error + int" where
  "Math_eval self op a b =
     Math_op op (if a = None then math_a self else a) (if b = None then math_b self else b)"

definition Math_init :: Math where
  \<comment> \<open>\<^verbatim>\<open>Math()\<close>, as \<^verbatim>\<open>Cpu.__init__\<close> creates it\<close>
  "Math_init = \<lparr>math_a = None, math_b = None\<rparr>"

definition evaluate :: "Math \<Rightarrow> opcode \<Rightarrow> width \<Rightarrow> Arg option \<Rightarrow> Arg option \<Rightarrow> error + Arg" where
  \<comment> \<open>\<^verbatim>\<open>Cpu.evaluate\<close>\<close>
  "evaluate math op sz a b =
     (case Math_eval math op a b of Inl e \<Rightarrow> Inl e | Inr v \<Rightarrow> Inr (mk_const sz v))"

text \<open>The readings of an operand that the claims about division speak of.\<close>

definition unsigned_val :: "Arg \<Rightarrow> int" where
  "unsigned_val a = get_val a"

definition signed_val :: "Arg \<Rightarrow> int" where
  \<comment> \<open>two's complement at the width of the numpy type of the operand\<close>
  "signed_val a =
     (if get_val a < 2 ^ (np_bits (arg_size a) - 1) then get_val a
      else get_val a - 2 ^ np_bits (arg_size a))"

definition trunc_div :: "int \<Rightarrow> int \<Rightarrow> int" where
  \<comment> \<open>division with truncation toward zero, in the words of the spec\<close>
  "trunc_div x y = sgn x * sgn y * (\<bar>x\<bar> div \<bar>y\<bar>)"

definition trunc_rem :: "int \<Rightarrow> int \<Rightarrow> int" where
  \<comment> \<open>the remainder whose sign follows the dividend, in the words of the spec\<close>
  "trunc_rem x y = x - y * trunc_div x y"

subsection \<open>Mem\<close>

type_synonym byte = "8 word"

type_synonym reader = "int \<Rightarrow> int \<Rightarrow> byte list option"

text \<open>
  The external reader is an object with a method \<^verbatim>\<open>read(addr, size)\<close> that returns a
  string or \<^verbatim>\<open>None\<close>; the code asks nothing else of it. It is modelled by a function,
  and each call is recorded in \<open>reader_calls\<close>, a field the source does not have: it makes
  "the reader is consulted" a fact about the state.
\<close>

record Mem =
  mem_data :: "int \<rightharpoonup> byte"
  mem_reader :: "reader option"
  mem_strict :: bool
  alloc_base :: int
  alloc_last :: int
  reader_calls :: "(int \<times> int) list"

definition DEF_ALLOC_BASE :: int where
  "DEF_ALLOC_BASE = 0x11000000"

definition Mem_init :: "reader option \<Rightarrow> bool \<Rightarrow> Mem" where
  \<comment> \<open>\<^verbatim>\<open>Mem(reader = r, strict = s)\<close>\<close>
  "Mem_init r s =
     \<lparr>mem_data = Map.empty, mem_reader = r, mem_strict = s,
      alloc_base = DEF_ALLOC_BASE, alloc_last = DEF_ALLOC_BASE, reader_calls = []\<rparr>"

fun map_length :: "width \<Rightarrow> int option" where
  "map_length U8 = Some 1"
| "map_length U16 = Some 2"
| "map_length U32 = Some 4"
| "map_length U64 = Some 8"
| "map_length U1 = None"

definition map_size :: "int \<Rightarrow> width option" where
  "map_size n =
     (if n = 1 then Some U8 else if n = 2 then Some U16
      else if n = 4 then Some U32 else if n = 8 then Some U64 else None)"

definition le_bytes :: "nat \<Rightarrow> int \<Rightarrow> byte list" where
  \<comment> \<open>the n low bytes of a number, least significant first\<close>
  "le_bytes n v = map (\<lambda>i. word_of_int (v div 256 ^ i)) [0..<n]"

fun le_value :: "byte list \<Rightarrow> int" where
  "le_value [] = 0"
| "le_value (b # bs) = uint b + 256 * le_value bs"

definition pack :: "width \<Rightarrow> int \<Rightarrow> error + byte list" where
  \<comment> \<open>\<^verbatim>\<open>struct.pack\<close> with the formats B, H, I, Q in native byte order, which is
      little-endian on the x86 hosts the emulator runs on; a value outside the range of
      the format is a \<^verbatim>\<open>struct.error\<close>\<close>
  "pack sz v =
     (case map_length sz of
        None \<Rightarrow> Inl KeyError
      | Some n \<Rightarrow>
          if 0 \<le> v \<and> v < 2 ^ (8 * nat n) then Inr (le_bytes (nat n) v) else Inl StructError)"

definition unpack :: "width \<Rightarrow> byte list \<Rightarrow> error + int" where
  \<comment> \<open>\<^verbatim>\<open>struct.unpack\<close>: the string must have exactly the length of the format\<close>
  "unpack sz bs =
     (case map_length sz of
        None \<Rightarrow> Inl KeyError
      | Some n \<Rightarrow> if int (length bs) = n then Inr (le_value bs) else Inl StructError)"

definition Mem_clear :: "Mem \<Rightarrow> Mem" where
  "Mem_clear m = m\<lparr>mem_data := Map.empty\<rparr>"

fun read_loop :: "int \<Rightarrow> nat list \<Rightarrow> (int \<rightharpoonup> byte) \<Rightarrow> byte list \<Rightarrow> error + byte list" where
  "read_loop addr [] d acc = Inr acc"
| "read_loop addr (i # is) d acc =
     (case d (addr + int i) of
        None \<Rightarrow> Inl (MemReadError addr)
      | Some b \<Rightarrow> read_loop addr is d (acc @ [b]))"

definition Mem__read :: "int \<Rightarrow> int \<Rightarrow> Mem \<Rightarrow> error + byte list" where
  "Mem__read addr sz m = read_loop addr [0..<nat sz] (mem_data m) []"

fun write_loop ::
  "int \<Rightarrow> byte list \<Rightarrow> nat list \<Rightarrow> (int \<rightharpoonup> byte) \<Rightarrow> (error + unit) \<times> (int \<rightharpoonup> byte)" where
  "write_loop addr bs [] d = (Inr (), d)"
| "write_loop addr bs (i # is) d =
     (if d (addr + int i) = None then (Inl (MemWriteError addr), d)
      else if length bs \<le> i then (Inl IndexError, d)
      else write_loop addr bs is (d(addr + int i \<mapsto> bs ! i)))"

definition Mem__write :: "int \<Rightarrow> int \<Rightarrow> byte list \<Rightarrow> Mem \<Rightarrow> (error + unit) \<times> Mem" where
  \<comment> \<open>the bytes stored before the exception stay stored\<close>
  "Mem__write addr sz bs m =
     (case write_loop addr bs [0..<nat sz] (mem_data m) of
        (r, d) \<Rightarrow> (r, m\<lparr>mem_data := d\<rparr>))"

definition alloc_addr :: "int option \<Rightarrow> Mem \<Rightarrow> (error + int) \<times> Mem" where
  "alloc_addr sz m =
     (case sz of
        None \<Rightarrow> (Inl TypeError, m)
      | Some n \<Rightarrow> (Inr (alloc_last m), m\<lparr>alloc_last := alloc_last m + n\<rparr>))"

definition alloc_byte :: "byte list option \<Rightarrow> nat \<Rightarrow> byte" where
  \<comment> \<open>\<^verbatim>\<open>'\\0' if data is None or i >= len(data) else data[i]\<close>\<close>
  "alloc_byte data i =
     (case data of
        None \<Rightarrow> 0
      | Some bs \<Rightarrow> if length bs \<le> i then 0 else bs ! i)"

fun alloc_loop ::
  "int \<Rightarrow> byte list option \<Rightarrow> nat list \<Rightarrow> (int \<rightharpoonup> byte) \<Rightarrow> (int \<rightharpoonup> byte)" where
  "alloc_loop addr data [] d = d"
| "alloc_loop addr data (i # is) d =
     alloc_loop addr data is (d(addr + int i \<mapsto> alloc_byte data i))"

definition Mem_alloc ::
  "int option \<Rightarrow> int option \<Rightarrow> byte list option \<Rightarrow> Mem \<Rightarrow> (error + int) \<times> Mem" where
  "Mem_alloc addr sz data m =
     (let size1 = (if sz = None \<and> data \<noteq> None then Some (int (length (the data))) else sz)
      in case (case addr of None \<Rightarrow> alloc_addr size1 m | Some a \<Rightarrow> (Inr a, m)) of
           (Inl e, m1) \<Rightarrow> (Inl e, m1)
         | (Inr a, m1) \<Rightarrow>
             (case size1 of
                None \<Rightarrow> (Inl TypeError, m1)
              | Some n \<Rightarrow>
                  (Inr a, m1\<lparr>mem_data := alloc_loop a data [0..<nat n] (mem_data m1)\<rparr>)))"

definition consult :: "int \<Rightarrow> int \<Rightarrow> Mem \<Rightarrow> Mem" where
  \<comment> \<open>records a call \<^verbatim>\<open>self.reader.read(addr, size)\<close>\<close>
  "consult addr sz m = m\<lparr>reader_calls := reader_calls m @ [(addr, sz)]\<rparr>"

definition Mem_read :: "int \<Rightarrow> int \<Rightarrow> Mem \<Rightarrow> (error + byte list) \<times> Mem" where
  "Mem_read addr sz m =
     (case Mem__read addr sz m of
        Inr bs \<Rightarrow> (Inr bs, m)
      | Inl e \<Rightarrow>
          (case mem_reader m of
             None \<Rightarrow> (Inl e, m)
           | Some r \<Rightarrow>
               (case r addr sz of
                  None \<Rightarrow> (Inl e, consult addr sz m)
                | Some data \<Rightarrow>
                    (case Mem_alloc (Some addr) None (Some data) (consult addr sz m) of
                       (Inl e1, m1) \<Rightarrow> (Inl e1, m1)
                     | (Inr a, m1) \<Rightarrow> (Inr data, m1)))))"

definition Mem_write :: "int \<Rightarrow> int \<Rightarrow> byte list \<Rightarrow> Mem \<Rightarrow> (error + unit) \<times> Mem" where
  "Mem_write addr sz bs m =
     (case Mem__write addr sz bs m of
        (Inr u, m1) \<Rightarrow> (Inr (), m1)
      | (Inl (MemWriteError a), m1) \<Rightarrow>
          (if mem_strict m1 then
             (case mem_reader m1 of
                None \<Rightarrow> (Inl (MemWriteError a), m1)
              | Some r \<Rightarrow>
                  (case r addr sz of
                     None \<Rightarrow> (Inl (MemWriteError a), consult addr sz m1)
                   | Some known \<Rightarrow>
                       (case Mem_alloc (Some addr) None (Some bs) (consult addr sz m1) of
                          (Inl e1, m2) \<Rightarrow> (Inl e1, m2)
                        | (Inr x, m2) \<Rightarrow> (Inr (), m2))))
           else
             (case Mem_alloc (Some addr) None (Some bs) m1 of
                (Inl e1, m2) \<Rightarrow> (Inl e1, m2)
              | (Inr x, m2) \<Rightarrow> (Inr (), m2)))
      | (Inl e, m1) \<Rightarrow> (Inl e, m1))"

definition store :: "int \<Rightarrow> width \<Rightarrow> int \<Rightarrow> Mem \<Rightarrow> (error + unit) \<times> Mem" where
  "store addr sz v m =
     (case map_length sz of
        None \<Rightarrow> (Inl KeyError, m)
      | Some n \<Rightarrow>
          (case pack sz v of
             Inl e \<Rightarrow> (Inl e, m)
           | Inr bs \<Rightarrow> Mem_write addr n bs m))"

definition load :: "int \<Rightarrow> width \<Rightarrow> Mem \<Rightarrow> (error + int) \<times> Mem" where
  "load addr sz m =
     (case map_length sz of
        None \<Rightarrow> (Inl KeyError, m)
      | Some n \<Rightarrow>
          (case Mem_read addr n m of
             (Inl e, m1) \<Rightarrow> (Inl e, m1)
           | (Inr bs, m1) \<Rightarrow>
               (case unpack sz bs of
                  Inl e \<Rightarrow> (Inl e, m1)
                | Inr v \<Rightarrow> (Inr v, m1))))"

subsection \<open>Registers and instructions\<close>

record Reg =
  reg_name :: string
  reg_val :: int
  is_temp :: bool

text \<open>
  The architecture description (\<^verbatim>\<open>get_arch(arch)\<close>) and the instruction objects come
  from modules that are not among the sources. The emulator reads the fields below and
  nothing else, so they are taken as given: an architecture is any value of \<open>Arch\<close>, and
  an instruction carries in \<open>insn_next\<close> what its method \<^verbatim>\<open>next()\<close> returns.
\<close>

record Arch =
  ptr_len :: int
  Registers_ip :: string
  Registers_sp :: string
  Registers_accum :: string

record Insn =
  insn_addr :: int
  insn_inum :: nat
  insn_op :: opcode
  insn_a :: Arg
  insn_b :: Arg
  insn_c :: Arg
  insn_next :: "(int \<times> nat) option"

record Storage =
  get_insn :: "int \<Rightarrow> Insn list option"
  storage_reader :: "reader option"

text \<open>\<open>get_insn s a = None\<close> stands for \<^verbatim>\<open>storage.get_insn(a)\<close> raising StorageError.\<close>

subsection \<open>Cpu\<close>

record Cpu =
  cpu_regs :: "string \<rightharpoonup> Reg"
  cpu_mem :: Mem
  cpu_math :: Math
  cpu_arch :: Arch

definition DEF_REG_VAL :: int where
  "DEF_REG_VAL = 0"

definition Cpu_init :: "Arch \<Rightarrow> Mem \<Rightarrow> Cpu" where
  \<comment> \<open>\<^verbatim>\<open>Cpu(arch, mem)\<close>; its call of \<^verbatim>\<open>reset()\<close> sets \<^verbatim>\<open>self.regs = {}\<close>\<close>
  "Cpu_init arch m = \<lparr>cpu_regs = Map.empty, cpu_mem = m, cpu_math = Math_init, cpu_arch = arch\<rparr>"

definition set_storage :: "Storage option \<Rightarrow> Cpu \<Rightarrow> Cpu" where
  "set_storage storage cpu =
     cpu\<lparr>cpu_mem := (cpu_mem cpu)
       \<lparr>mem_reader := (case storage of None \<Rightarrow> None | Some s \<Rightarrow> storage_reader s)\<rparr>\<rparr>"

definition reset_temp :: "Cpu \<Rightarrow> Cpu" where
  "reset_temp cpu =
     cpu\<lparr>cpu_regs := (\<lambda>n. case cpu_regs cpu n of
                               None \<Rightarrow> None
                             | Some r \<Rightarrow> if is_temp r then None else Some r)\<rparr>"

definition upper_char :: "char \<Rightarrow> char" where
  "upper_char c =
     (let n = (of_char c :: nat) in if 97 \<le> n \<and> n \<le> 122 then char_of (n - 32) else c)"

definition upper :: "string \<Rightarrow> string" where
  "upper s = map upper_char s"

definition canonical :: "string \<Rightarrow> bool \<Rightarrow> string" where
  \<comment> \<open>the first lines of \<^verbatim>\<open>Cpu.reg\<close>: upper case, and a prefix where there is none\<close>
  "canonical name temp =
     (let n = upper name
      in if take 2 n = ''R_'' \<or> take 2 n = ''V_'' then n
         else (if temp then ''V'' else ''R'') @ ''_'' @ n)"

type_synonym reg_ref = "string \<times> Reg"

definition Cpu_reg :: "string \<Rightarrow> int \<Rightarrow> bool \<Rightarrow> Cpu \<Rightarrow> reg_ref \<times> Cpu" where
  \<comment> \<open>returns the register object: its key in \<open>cpu_regs\<close> and its contents\<close>
  "Cpu_reg name v temp cpu =
     (let n = canonical name temp
      in case cpu_regs cpu n of
           None \<Rightarrow>
             (let r = \<lparr>reg_name = n, reg_val = v, is_temp = temp\<rparr>
              in ((n, r), cpu\<lparr>cpu_regs := (cpu_regs cpu)(n \<mapsto> r)\<rparr>))
         | Some r \<Rightarrow> ((n, r), cpu))"

definition Cpu_reg_opt ::
  "string option \<Rightarrow> int \<Rightarrow> bool \<Rightarrow> Cpu \<Rightarrow> (error + reg_ref) \<times> Cpu" where
  \<comment> \<open>\<^verbatim>\<open>Cpu.reg\<close> on the name of an operand, which is \<^verbatim>\<open>None\<close> for an operand that is
      not a register: \<^verbatim>\<open>name.upper()\<close> is then an AttributeError\<close>
  "Cpu_reg_opt name v temp cpu =
     (case name of
        None \<Rightarrow> (Inl AttributeError, cpu)
      | Some nm \<Rightarrow> (case Cpu_reg nm v temp cpu of (r, s) \<Rightarrow> (Inr r, s)))"

definition assign_val :: "reg_ref \<Rightarrow> int \<Rightarrow> Cpu \<Rightarrow> Cpu" where
  \<comment> \<open>\<^verbatim>\<open>reg.val = v\<close> on a register object of \<open>cpu_regs\<close>\<close>
  "assign_val ref v cpu =
     (case ref of (n, r) \<Rightarrow> cpu\<lparr>cpu_regs := (cpu_regs cpu)(n \<mapsto> r\<lparr>reg_val := v\<rparr>)\<rparr>)"

definition Cpu_arg :: "Arg \<Rightarrow> Cpu \<Rightarrow> (error + Arg option) \<times> Cpu" where
  "Cpu_arg arg cpu =
     (case arg_type arg of
        A_REG \<Rightarrow>
          (case Cpu_reg_opt (arg_name arg) DEF_REG_VAL False cpu of
             (Inl e, s) \<Rightarrow> (Inl e, s)
           | (Inr (n, r), s) \<Rightarrow> (Inr (Some (mk_const (arg_size arg) (reg_val r))), s))
      | A_TEMP \<Rightarrow>
          (case Cpu_reg_opt (arg_name arg) DEF_REG_VAL True cpu of
             (Inl e, s) \<Rightarrow> (Inl e, s)
           | (Inr (n, r), s) \<Rightarrow> (Inr (Some (mk_const (arg_size arg) (reg_val r))), s))
      | A_CONST \<Rightarrow> (Inr (Some arg), cpu)
      | A_NONE \<Rightarrow> (Inr None, cpu))"

type_synonym handler =
  "Insn \<Rightarrow> Arg option \<Rightarrow> Arg option \<Rightarrow> Arg option \<Rightarrow> Cpu \<Rightarrow> (error + int option) \<times> Cpu"

definition insn_none :: handler where
  "insn_none insn a b c cpu = (Inr None, cpu)"

definition insn_jcc :: handler where
  "insn_jcc insn a b c cpu =
     (case a of
        None \<Rightarrow> (Inl AttributeError, cpu)
      | Some av \<Rightarrow>
          if get_val av \<noteq> 0 then
            (case c of
               None \<Rightarrow> (Inl AttributeError, cpu)
             | Some cv \<Rightarrow> (Inr (Some (get_val cv)), cpu))
          else (Inr None, cpu))"

definition insn_stm :: handler where
  "insn_stm insn a b c cpu =
     (case c of
        None \<Rightarrow> (Inl AttributeError, cpu)
      | Some cv \<Rightarrow>
          (case a of
             None \<Rightarrow> (Inl AttributeError, cpu)
           | Some av \<Rightarrow>
               (case store (get_val cv) (arg_size (insn_a insn)) (get_val av) (cpu_mem cpu) of
                  (Inl e, m) \<Rightarrow> (Inl e, cpu\<lparr>cpu_mem := m\<rparr>)
                | (Inr u, m) \<Rightarrow> (Inr None, cpu\<lparr>cpu_mem := m\<rparr>))))"

definition insn_ldm :: handler where
  "insn_ldm insn a b c cpu =
     (case a of
        None \<Rightarrow> (Inl AttributeError, cpu)
      | Some av \<Rightarrow>
          (case load (get_val av) (arg_size (insn_c insn)) (cpu_mem cpu) of
             (Inl e, m) \<Rightarrow> (Inl e, cpu\<lparr>cpu_mem := m\<rparr>)
           | (Inr v, m) \<Rightarrow>
               (case Cpu_reg_opt (arg_name (insn_c insn)) DEF_REG_VAL False (cpu\<lparr>cpu_mem := m\<rparr>) of
                  (Inl e, s) \<Rightarrow> (Inl e, s)
                | (Inr r, s) \<Rightarrow> (Inr None, assign_val r v s))))"

definition insn_other :: handler where
  "insn_other insn a b c cpu =
     (case evaluate (cpu_math cpu) (insn_op insn) (arg_size (insn_c insn)) a b of
        Inl e \<Rightarrow> (Inl e, cpu)
      | Inr res \<Rightarrow>
          (case Cpu_reg_opt (arg_name (insn_c insn)) DEF_REG_VAL False cpu of
             (Inl e, s) \<Rightarrow> (Inl e, s)
           | (Inr r, s) \<Rightarrow> (Inr None, assign_val r (get_val res) s)))"

fun in_REIL_INSN :: "opcode \<Rightarrow> bool" where
  "in_REIL_INSN (I_UNKNOWN k) = False"
| "in_REIL_INSN op = True"

fun handler_of :: "opcode \<Rightarrow> handler option" where
  \<comment> \<open>the dictionary of \<^verbatim>\<open>Cpu.execute\<close>\<close>
  "handler_of I_NONE = Some insn_none"
| "handler_of I_JCC = Some insn_jcc"
| "handler_of I_STM = Some insn_stm"
| "handler_of I_LDM = Some insn_ldm"
| "handler_of op = None"

definition execute :: "Insn \<Rightarrow> Cpu \<Rightarrow> (error + int option) \<times> Cpu" where
  \<comment> \<open>the \<^verbatim>\<open>except KeyError\<close> also catches a KeyError raised inside a handler\<close>
  "execute insn cpu =
     (case Cpu_arg (insn_a insn) cpu of
        (Inl e, s1) \<Rightarrow> (Inl e, s1)
      | (Inr a, s1) \<Rightarrow>
     (case Cpu_arg (insn_b insn) s1 of
        (Inl e, s2) \<Rightarrow> (Inl e, s2)
      | (Inr b, s2) \<Rightarrow>
     (case Cpu_arg (insn_c insn) s2 of
        (Inl e, s3) \<Rightarrow> (Inl e, s3)
      | (Inr c, s3) \<Rightarrow>
          if \<not> in_REIL_INSN (insn_op insn)
          then (Inl (CpuInstructionError (insn_addr insn) (insn_inum insn)), s3)
          else
            (case handler_of (insn_op insn) of
               None \<Rightarrow> insn_other insn a b c s3
             | Some h \<Rightarrow>
                 (case h insn a b c s3 of
                    (Inl e, s4) \<Rightarrow>
                      if e = KeyError then insn_other insn a b c s4 else (Inl e, s4)
                  | (Inr t, s4) \<Rightarrow> (Inr t, s4))))))"

definition ip_reg :: "Cpu \<Rightarrow> Reg option" where
  \<comment> \<open>the register object that \<^verbatim>\<open>get_ip\<close> and \<^verbatim>\<open>set_ip\<close> look up, if it exists\<close>
  "ip_reg cpu = cpu_regs cpu (canonical (Registers_ip (cpu_arch cpu)) False)"

definition get_ip :: "Cpu \<Rightarrow> (error + int) \<times> Cpu" where
  \<comment> \<open>\<^verbatim>\<open>self.reg(self.arch.Registers.ip).get_val()\<close>: the class \<^verbatim>\<open>Reg\<close> of VM.py
      has no method \<^verbatim>\<open>get_val\<close>, so the call is an AttributeError\<close>
  "get_ip cpu =
     (case Cpu_reg (Registers_ip (cpu_arch cpu)) DEF_REG_VAL False cpu of
        (r, s) \<Rightarrow> (Inl AttributeError, s))"

definition set_ip :: "int \<Rightarrow> Cpu \<Rightarrow> Cpu" where
  "set_ip v cpu =
     (case Cpu_reg (Registers_ip (cpu_arch cpu)) DEF_REG_VAL False cpu of
        (r, s) \<Rightarrow> assign_val r v s)"

fun run_insns :: "Insn list \<Rightarrow> int \<Rightarrow> Cpu \<Rightarrow> (error + int) \<times> Cpu" where
  \<comment> \<open>the \<^verbatim>\<open>for\<close> loop of \<^verbatim>\<open>Cpu.run\<close>; the result is the value of \<^verbatim>\<open>next\<close> after it\<close>
  "run_insns [] nxt cpu = (Inr nxt, cpu)"
| "run_insns (insn # rest) nxt cpu =
     (case execute insn cpu of
        (Inl e, s) \<Rightarrow> (Inl e, s)
      | (Inr (Some target), s) \<Rightarrow> (Inr target, s)
      | (Inr None, s) \<Rightarrow>
          (case insn_next insn of
             None \<Rightarrow> (Inl TypeError, s)
           | Some (n, i) \<Rightarrow> run_insns rest n (set_ip n s)))"

definition run_step :: "Storage \<Rightarrow> int \<Rightarrow> Cpu \<Rightarrow> (error + int) \<times> Cpu" where
  \<comment> \<open>one round of the \<^verbatim>\<open>while True\<close> loop of \<^verbatim>\<open>Cpu.run\<close>\<close>
  "run_step storage nxt cpu =
     (case get_insn storage nxt of
        None \<Rightarrow> (Inl (CpuReadError nxt 0), cpu)
      | Some insn_list \<Rightarrow>
          (case run_insns insn_list nxt cpu of
             (Inl e, s) \<Rightarrow> (Inl e, s)
           | (Inr n, s) \<Rightarrow> (Inr n, reset_temp s)))"

fun run_loop :: "nat \<Rightarrow> Storage \<Rightarrow> int \<Rightarrow> Cpu \<Rightarrow> (error \<times> Cpu) option" where
  "run_loop 0 storage nxt cpu = None"
| "run_loop (Suc k) storage nxt cpu =
     (case run_step storage nxt cpu of
        (Inl e, s) \<Rightarrow> Some (e, s)
      | (Inr n, s) \<Rightarrow> run_loop k storage n s)"

definition Cpu_run :: "nat \<Rightarrow> Storage \<Rightarrow> int \<Rightarrow> Cpu \<Rightarrow> (error \<times> Cpu) option" where
  "Cpu_run fuel storage addr cpu =
     run_loop fuel storage addr (set_ip addr (set_storage (Some storage) cpu))"

text \<open>
  \<^verbatim>\<open>Cpu.run\<close> has no normal exit: the loop ends only by an exception. The model counts
  the rounds of the loop: \<open>Cpu_run fuel\<close> is \<open>Some (e, s)\<close> when the exception \<open>e\<close> is
  raised in state \<open>s\<close> within \<open>fuel\<close> rounds, and \<open>None\<close> when the loop is still running
  after them.
\<close>

subsection \<open>Stack\<close>

record Stack =
  stack_size :: int
  stack_addr :: int
  stack_top :: int
  stack_bottom :: int
  item_size :: int

definition DEF_STACK_BASE :: int where
  "DEF_STACK_BASE = 0x12000000"

definition Stack_init :: "int \<Rightarrow> int option \<Rightarrow> int option \<Rightarrow> Mem \<Rightarrow> (error + Stack) \<times> Mem" where
  \<comment> \<open>\<^verbatim>\<open>Stack(mem, item_size, addr, size)\<close>; the argument \<^verbatim>\<open>addr\<close> is not used\<close>
  "Stack_init isz addr sz m =
     (let n = (case sz of None \<Rightarrow> 0x1000 | Some k \<Rightarrow> k)
      in case Mem_alloc (Some DEF_STACK_BASE) (Some n) None m of
           (Inl e, m1) \<Rightarrow> (Inl e, m1)
         | (Inr a, m1) \<Rightarrow>
             (Inr \<lparr>stack_size = n, stack_addr = a, stack_top = a + n,
                   stack_bottom = a + n, item_size = isz\<rparr>, m1))"

definition push :: "int \<Rightarrow> Stack \<Rightarrow> Mem \<Rightarrow> (error + unit) \<times> Stack \<times> Mem" where
  "push v st m =
     (let st1 = st\<lparr>stack_top := stack_top st - item_size st\<rparr>
      in case map_size (item_size st1) of
           None \<Rightarrow> (Inl KeyError, st1, m)
         | Some w \<Rightarrow> (case store (stack_top st1) w v m of (r, m1) \<Rightarrow> (r, st1, m1)))"

definition pop :: "Stack \<Rightarrow> Mem \<Rightarrow> (error + int) \<times> Stack \<times> Mem" where
  "pop st m =
     (case map_size (item_size st) of
        None \<Rightarrow> (Inl KeyError, st, m)
      | Some w \<Rightarrow>
          (case load (stack_top st) w m of
             (Inl e, m1) \<Rightarrow> (Inl e, st, m1)
           | (Inr v, m1) \<Rightarrow> (Inr v, st\<lparr>stack_top := stack_top st + item_size st\<rparr>, m1)))"

subsection \<open>Abi\<close>

record Abi =
  abi_cpu :: Cpu
  abi_storage :: Storage

text \<open>
  \<^verbatim>\<open>Abi.mem\<close> and \<^verbatim>\<open>Abi.arch\<close> are the objects \<^verbatim>\<open>cpu.mem\<close> and \<^verbatim>\<open>cpu.arch\<close>, so the
  model reads them from \<open>abi_cpu\<close>.
\<close>

definition DUMMY_RET_ADDR :: int where
  "DUMMY_RET_ADDR = 0xcafebabe"

definition align :: "Arch \<Rightarrow> int \<Rightarrow> error + int" where
  \<comment> \<open>\<^verbatim>\<open>%\<close> of Python takes the sign of the divisor, as \<open>mod\<close> does, and raises on 0\<close>
  "align arch v =
     (if ptr_len arch = 0 then Inl ZeroDivisionError
      else Inr (v + (ptr_len arch - v mod ptr_len arch)))"

datatype buff_data = Data "byte list" | Length int

definition with_mem :: "('r \<times> Mem) \<Rightarrow> Abi \<Rightarrow> 'r \<times> Abi" where
  \<comment> \<open>puts the memory that an operation of \<open>Mem\<close> returns back into the cpu\<close>
  "with_mem rm abi = (case rm of (r, m) \<Rightarrow> (r, abi\<lparr>abi_cpu := (abi_cpu abi)\<lparr>cpu_mem := m\<rparr>\<rparr>))"

definition buff :: "buff_data \<Rightarrow> int option \<Rightarrow> byte list option \<Rightarrow> Abi \<Rightarrow> (error + int) \<times> Abi" where
  "buff data addr fill abi =
     (let sz = (case data of Data s \<Rightarrow> int (length s) | Length n \<Rightarrow> n);
          d = (case data of
                 Data s \<Rightarrow> Some s
               | Length n \<Rightarrow>
                   (case fill of None \<Rightarrow> None | Some f \<Rightarrow> Some (concat (replicate (nat n) f))))
      in case align (cpu_arch (abi_cpu abi)) sz of
           Inl e \<Rightarrow> (Inl e, abi)
         | Inr asz \<Rightarrow> with_mem (Mem_alloc addr (Some asz) d (cpu_mem (abi_cpu abi))) abi)"

definition Abi_string :: "byte list \<Rightarrow> Abi \<Rightarrow> (error + int) \<times> Abi" where
  "Abi_string data abi = buff (Data (data @ [0, 0, 0, 0])) None None abi"

definition Abi_stack :: "int option \<Rightarrow> Abi \<Rightarrow> (error + Stack) \<times> Abi" where
  "Abi_stack sz abi =
     with_mem (Stack_init (ptr_len (cpu_arch (abi_cpu abi))) None sz (cpu_mem (abi_cpu abi))) abi"

datatype call_arg = IntArg int | StrArg "byte list"

definition Abi_push :: "int \<Rightarrow> Stack \<Rightarrow> Abi \<Rightarrow> (error + Stack) \<times> Abi" where
  \<comment> \<open>\<^verbatim>\<open>stack.push(v)\<close> on the memory of the cpu\<close>
  "Abi_push v st abi =
     (case push v st (cpu_mem (abi_cpu abi)) of
        (Inl e, st1, m) \<Rightarrow> with_mem (Inl e, m) abi
      | (Inr u, st1, m) \<Rightarrow> with_mem (Inr st1, m) abi)"

fun push_all :: "call_arg list \<Rightarrow> Stack \<Rightarrow> Abi \<Rightarrow> (error + Stack) \<times> Abi" where
  \<comment> \<open>the \<^verbatim>\<open>for\<close> loop of \<^verbatim>\<open>Abi.pushargs\<close>\<close>
  "push_all [] st abi = (Inr st, abi)"
| "push_all (IntArg v # rest) st abi =
     (case Abi_push v st abi of
        (Inl e, abi1) \<Rightarrow> (Inl e, abi1)
      | (Inr st1, abi1) \<Rightarrow> push_all rest st1 abi1)"
| "push_all (StrArg s # rest) st abi =
     (case Abi_string s abi of
        (Inl e, abi1) \<Rightarrow> (Inl e, abi1)
      | (Inr p, abi1) \<Rightarrow>
          (case Abi_push p st abi1 of
             (Inl e, abi2) \<Rightarrow> (Inl e, abi2)
           | (Inr st1, abi2) \<Rightarrow> push_all rest st1 abi2))"

definition pushargs :: "call_arg list \<Rightarrow> Abi \<Rightarrow> (error + Stack) \<times> Abi" where
  "pushargs args abi =
     (case Abi_stack None abi of
        (Inl e, abi1) \<Rightarrow> (Inl e, abi1)
      | (Inr st, abi1) \<Rightarrow> push_all (rev args) st abi1)"

definition Abi_reg_set :: "string \<Rightarrow> int \<Rightarrow> Abi \<Rightarrow> Abi" where
  \<comment> \<open>\<^verbatim>\<open>Abi.reg(name, val)\<close> with a value: \<^verbatim>\<open>self.cpu.reg(name).val = val\<close>\<close>
  "Abi_reg_set name v abi =
     (case Cpu_reg name DEF_REG_VAL False (abi_cpu abi) of
        (r, s) \<Rightarrow> abi\<lparr>abi_cpu := assign_val r v s\<rparr>)"

definition swallowed :: "error \<Rightarrow> bool" where
  \<comment> \<open>the handler of \<^verbatim>\<open>Abi.call\<close>: \<^verbatim>\<open>except CpuError as e\<close> without a
      \<^verbatim>\<open>raise\<close>, which happens when \<^verbatim>\<open>e.addr\<close> is \<^verbatim>\<open>DUMMY_RET_ADDR\<close>\<close>
  "swallowed e \<longleftrightarrow> is_CpuError e \<and> CpuError_addr e = DUMMY_RET_ADDR"

definition call_prepare :: "call_arg list \<Rightarrow> Abi \<Rightarrow> (error + unit) \<times> Abi" where
  \<comment> \<open>the statements of \<^verbatim>\<open>Abi.call\<close> before the \<^verbatim>\<open>try\<close>: an exception raised
      here is outside the handler\<close>
  "call_prepare args abi =
     (case pushargs args abi of
        (Inl e, abi1) \<Rightarrow> (Inl e, abi1)
      | (Inr st, abi1) \<Rightarrow>
          (case Abi_push DUMMY_RET_ADDR st abi1 of
             (Inl e, abi2) \<Rightarrow> (Inl e, abi2)
           | (Inr st1, abi2) \<Rightarrow>
               (Inr (),
                Abi_reg_set (Registers_sp (cpu_arch (abi_cpu abi2))) (stack_top st1) abi2)))"

definition Abi_call ::
  "nat \<Rightarrow> int \<Rightarrow> call_arg list \<Rightarrow> Abi \<Rightarrow> ((error + unit) \<times> Abi) option" where
  \<comment> \<open>\<open>None\<close>: \<^verbatim>\<open>cpu.run\<close> is still running after \<open>fuel\<close> rounds of its loop\<close>
  "Abi_call fuel addr args abi =
     (case call_prepare args abi of
        (Inl e, abi1) \<Rightarrow> Some (Inl e, abi1)
      | (Inr u, abi3) \<Rightarrow>
          (case Cpu_run fuel (abi_storage abi3) addr (abi_cpu abi3) of
             None \<Rightarrow> None
           | Some (e, s) \<Rightarrow>
               if swallowed e then Some (Inr (), abi3\<lparr>abi_cpu := s\<rparr>)
               else Some (Inl e, abi3\<lparr>abi_cpu := s\<rparr>)))"

subsection \<open>Notions used to state the properties\<close>

definition overlay :: "int \<Rightarrow> byte list \<Rightarrow> (int \<rightharpoonup> byte) \<Rightarrow> (int \<rightharpoonup> byte)" where
  \<comment> \<open>the dictionary \<open>d\<close> with the bytes \<open>bs\<close> stored at \<open>addr\<close>, \<open>addr + 1\<close>, ...\<close>
  "overlay addr bs d =
     (\<lambda>x. if addr \<le> x \<and> x < addr + int (length bs) then Some (bs ! nat (x - addr)) else d x)"

definition undefined_in :: "int \<Rightarrow> int \<Rightarrow> Mem \<Rightarrow> bool" where
  \<comment> \<open>the range of \<open>n\<close> bytes at \<open>addr\<close> contains an undefined byte\<close>
  "undefined_in addr n m \<longleftrightarrow> (\<exists>i < nat n. mem_data m (addr + int i) = None)"

subsection \<open>Inputs of the examples\<close>

definition x86 :: Arch where
  \<comment> \<open>the registers that the tests of VM.py name, and pointers of four bytes\<close>
  "x86 = \<lparr>ptr_len = 4, Registers_ip = ''eip'', Registers_sp = ''esp'', Registers_accum = ''eax''\<rparr>"

definition no_arg :: Arg where
  "no_arg = \<lparr>arg_type = A_NONE, arg_size = U32, arg_name = None, arg_val = 0\<rparr>"

definition jump_insn :: "int \<Rightarrow> int \<Rightarrow> Insn" where
  \<comment> \<open>\<^verbatim>\<open>I_JCC 1, , target\<close>: a jump that is always taken\<close>
  "jump_insn addr target =
     \<lparr>insn_addr = addr, insn_inum = 0, insn_op = I_JCC, insn_a = mk_const U1 1,
      insn_b = no_arg, insn_c = mk_const U32 target, insn_next = Some (addr + 2, 0)\<rparr>"

definition bad_insn :: "int \<Rightarrow> Insn" where
  \<comment> \<open>an instruction whose opcode is not in \<^verbatim>\<open>REIL_INSN\<close>\<close>
  "bad_insn addr =
     \<lparr>insn_addr = addr, insn_inum = 0, insn_op = I_UNKNOWN 255, insn_a = no_arg,
      insn_b = no_arg, insn_c = no_arg, insn_next = Some (addr + 1, 0)\<rparr>"

definition code_at :: "(int \<times> Insn list) list \<Rightarrow> Storage" where
  \<comment> \<open>a storage that knows the listed addresses and has no reader\<close>
  "code_at tbl = \<lparr>get_insn = map_of tbl, storage_reader = None\<rparr>"

definition abi_on :: "Storage \<Rightarrow> Abi" where
  \<comment> \<open>an \<open>Abi\<close> over a cpu with an empty strict memory and no registers yet\<close>
  "abi_on st = \<lparr>abi_cpu = Cpu_init x86 (Mem_init None True), abi_storage = st\<rparr>"

section \<open>Properties\<close>

subsection \<open>Division and remainder in Math\<close>

lemma wrap_s_id: "0 < n \<Longrightarrow> - (2 ^ (n - 1)) \<le> x \<Longrightarrow> x < 2 ^ (n - 1) \<Longrightarrow> wrap_s n x = x"
proof -
  assume n: "0 < n" and lo: "- (2 ^ (n - 1)) \<le> x" and hi: "x < 2 ^ (n - 1)"
  have p: "(2::int) ^ n = 2 * 2 ^ (n - 1)"
    using n by (cases n) simp_all
  have "(x + 2 ^ (n - 1)) mod 2 ^ n = x + 2 ^ (n - 1)"
    using lo hi p by (intro mod_pos_pos_trivial) linarith+
  then show ?thesis by (simp add: wrap_s_def)
qed

lemma np_bits_pos: "0 < np_bits w"
  by (cases w) simp_all

lemma width_le_np: "width_bits w \<le> np_bits w"
  by (cases w) simp_all

lemma get_val_range: "0 \<le> get_val a \<and> get_val a < 2 ^ np_bits (arg_size a)"
proof -
  have "get_val a < 2 ^ width_bits (arg_size a)" by (simp add: get_val_def)
  also have "(2::int) ^ width_bits (arg_size a) \<le> 2 ^ np_bits (arg_size a)"
    by (rule power_increasing) (simp_all add: width_le_np)
  finally show ?thesis by (simp add: get_val_def)
qed

lemma val_u_Some: "val_u (Some a) = Some (np_bits (arg_size a), unsigned_val a)"
  using get_val_range [of a] by (simp add: val_u_def wrap_u_def unsigned_val_def)

lemma wrap_s_of_unsigned:
  assumes "0 < n" "0 \<le> u" "u < 2 ^ n"
  shows "wrap_s n u = (if u < 2 ^ (n - 1) then u else u - 2 ^ n)"
proof -
  have p: "(2::int) ^ n = 2 * 2 ^ (n - 1)"
    using assms(1) by (cases n) simp_all
  show ?thesis
  proof (cases "u < 2 ^ (n - 1)")
    case True
    then show ?thesis using assms wrap_s_id [of n u] by simp
  next
    case False
    have "(u + 2 ^ (n - 1)) mod 2 ^ n = (u + 2 ^ (n - 1) - 2 ^ n) mod 2 ^ n"
      by (metis mod_diff_right_eq mod_self diff_zero)
    also have "\<dots> = u + 2 ^ (n - 1) - 2 ^ n"
      using False assms p by (intro mod_pos_pos_trivial) linarith+
    finally show ?thesis using False p by (simp add: wrap_s_def)
  qed
qed

lemma val_s_Some: "val_s (Some a) = Some (np_bits (arg_size a), signed_val a)"
  using get_val_range [of a] wrap_s_of_unsigned [of "np_bits (arg_size a)" "get_val a"]
  by (simp add: val_s_def val_u_Some unsigned_val_def signed_val_def np_bits_pos)

lemma signed_val_range:
  "- (2 ^ (np_bits (arg_size a) - 1)) \<le> signed_val a \<and> signed_val a < 2 ^ (np_bits (arg_size a) - 1)"
proof -
  have p: "(2::int) ^ np_bits (arg_size a) = 2 * 2 ^ (np_bits (arg_size a) - 1)"
    using np_bits_pos [of "arg_size a"] by (cases "np_bits (arg_size a)") simp_all
  show ?thesis using get_val_range [of a] p by (auto simp: signed_val_def)
qed


lemma div_bounds:
  fixes x y M :: int
  assumes "- M \<le> x" "x < M" "y \<noteq> 0" "\<not> (x = - M \<and> y = - 1)"
  shows "- M \<le> x div y \<and> x div y < M"
proof -
  have le_self: "u div v \<le> u" if "0 < v" "0 \<le> u" for u v :: int
    using zdiv_mono2 [of u 1 v] that by simp
  have ge_self: "u \<le> u div v" if "0 < v" "u < 0" for u v :: int
    using zdiv_mono2_neg [of u 1 v] that by simp
  have pos: "- N \<le> u div v \<and> u div v \<le> N" if "0 < v" "- N \<le> u" "u \<le> N" for u v N :: int
  proof (cases "0 \<le> u")
    case True
    then have "0 \<le> u div v" "u div v \<le> u"
      using that le_self by (simp_all add: pos_imp_zdiv_nonneg_iff)
    then show ?thesis using that True by linarith
  next
    case False
    then have "u \<le> u div v" "u div v < 0"
      using that ge_self by (simp_all add: div_neg_pos_less0)
    then show ?thesis using that False by linarith
  qed
  show ?thesis
  proof (cases "0 < y")
    case True
    have "x div y \<noteq> M"
    proof
      assume e: "x div y = M"
      show False
      proof (cases "0 \<le> x")
        case True
        then have "x div y \<le> x" using \<open>0 < y\<close> le_self by simp
        then show False using e assms by linarith
      next
        case False
        then have "x div y < 0" using \<open>0 < y\<close> by (simp add: div_neg_pos_less0)
        then show False using e assms by linarith
      qed
    qed
    moreover have "- M \<le> x div y \<and> x div y \<le> M"
      using pos [of y M x] True assms by simp
    ultimately show ?thesis by linarith
  next
    case False
    define u v where uv: "u = - x" "v = - y"
    have v: "0 < v" using False assms uv by simp
    have eq: "x div y = u div v" using uv by simp
    have ur: "- M < u" "u \<le> M" using assms uv by simp_all
    have b: "- M \<le> u div v \<and> u div v \<le> M"
      using pos [of v M u] v ur by simp
    have "u div v \<noteq> M"
    proof
      assume e: "u div v = M"
      show False
      proof (cases "0 \<le> u")
        case True
        then have le: "u div v \<le> u" using v le_self by simp
        then have um: "u = M" using e ur by linarith
        then have "v \<noteq> 1" using assms uv by auto
        then have "1 < v" using v by linarith
        moreover have "0 < u" using um ur by linarith
        ultimately have "u div v < u" by (simp add: int_div_less_self)
        then show False using e um by simp
      next
        case False
        then have "u div v < 0" using v by (simp add: div_neg_pos_less0)
        then show False using e ur by linarith
      qed
    qed
    then have "- M \<le> u div v \<and> u div v < M" using b by linarith
    then show ?thesis by (simp only: eq)
  qed
qed

lemma mod_bounds:
  fixes x y M :: int
  assumes "- M \<le> y" "y < M" "y \<noteq> 0"
  shows "- M \<le> x mod y \<and> x mod y < M"
proof (cases "0 < y")
  case True
  then have "0 \<le> x mod y" "x mod y < y" by simp_all
  then show ?thesis using assms by linarith
next
  case False
  then have "y < 0" using assms by simp
  then have "x mod y \<le> 0" "y < x mod y" by simp_all
  then show ?thesis using assms by linarith
qed

lemma Math_eval_Some: "Math_eval self op (Some a) (Some b) = Math_op op (Some a) (Some b)"
  by (simp add: Math_eval_def)

text \<open>
  Claim C1, as the code has it. For two operands of the same width and a divisor that is
  not zero, \<^verbatim>\<open>I_SDIV\<close> reads both as two's complement numbers (of 8 bits for U1) and
  returns the quotient rounded towards minus infinity, not towards zero; the one
  quotient that does not fit the width, that of the least number by -1, wraps around to
  the least number. At U8, \<^verbatim>\<open>I_SDIV(0xFF, 0x02)\<close> is -1, which is 0xFF at that width.
\<close>

theorem sdiv_rounds_down:
  assumes "arg_size a = W" and "arg_size b = W" and "signed_val b \<noteq> 0"
  shows "Math_eval self I_SDIV (Some a) (Some b) =
           Inr (if signed_val a = - (2 ^ (np_bits W - 1)) \<and> signed_val b = - 1
                then - (2 ^ (np_bits W - 1))
                else \<lfloor>real_of_int (signed_val a) / real_of_int (signed_val b)\<rfloor>)"
proof (cases "signed_val a = - (2 ^ (np_bits W - 1)) \<and> signed_val b = - 1")
  case True
  have p: "(2::int) ^ np_bits W = 2 * 2 ^ (np_bits W - 1)"
    using np_bits_pos [of W] by (cases "np_bits W") simp_all
  have "(2 * 2 ^ (np_bits W - 1) :: int) mod 2 ^ np_bits W = 0"
    using p by simp
  then have "wrap_s (np_bits W) (2 ^ (np_bits W - 1)) = - (2 ^ (np_bits W - 1))"
    by (simp add: wrap_s_def)
  then show ?thesis
    using True assms by (simp add: Math_eval_Some val_s_Some np_binop_def np_div_def)
next
  case False
  have "- (2 ^ (np_bits W - 1)) \<le> signed_val a div signed_val b
      \<and> signed_val a div signed_val b < 2 ^ (np_bits W - 1)"
    using signed_val_range [of a] assms False
    by (intro div_bounds) auto
  then have "wrap_s (np_bits W) (signed_val a div signed_val b) = signed_val a div signed_val b"
    using np_bits_pos [of W] by (simp add: wrap_s_id)
  then show ?thesis
    using False assms
    by (simp add: Math_eval_Some val_s_Some np_binop_def np_div_def floor_divide_of_int_eq)
qed

text \<open>The example of the claim, -1 / 2 at U8, from the theorem.\<close>

theorem sdiv_rounds_down_witness:
  "Math_eval Math_init I_SDIV (Some (mk_const U8 0xFF)) (Some (mk_const U8 0x02)) = Inr (- 1)"
proof -
  have a: "signed_val (mk_const U8 0xFF) = - 1" by (simp add: signed_val_def get_val_def mk_const_def)
  have b: "signed_val (mk_const U8 0x02) = 2" by (simp add: signed_val_def get_val_def mk_const_def)
  have "\<lfloor>- 1 / (2::real)\<rfloor> = - 1" by simp
  then show ?thesis
    using sdiv_rounds_down [of "mk_const U8 0xFF" U8 "mk_const U8 0x02" Math_init] a b
    by (simp add: mk_const_def)
qed

text \<open>
  Claim C1 as stated fails: truncation toward zero gives 0 for -1 / 2, the code gives -1,
  and the destination of width U8 then holds 0xFF. The unsigned quotient of the claim,
  \<^verbatim>\<open>I_DIV(0xFF, 0x02) = 0x7F\<close>, is right.
\<close>

theorem sdiv_truncation_counterexample:
  "trunc_div (signed_val (mk_const U8 0xFF)) (signed_val (mk_const U8 0x02)) = 0
   \<and> Math_eval Math_init I_SDIV (Some (mk_const U8 0xFF)) (Some (mk_const U8 0x02)) = Inr (- 1)
   \<and> Math_eval Math_init I_SDIV (Some (mk_const U8 0xFF)) (Some (mk_const U8 0x02)) \<noteq> Inr 0x00
   \<and> evaluate Math_init I_SDIV U8 (Some (mk_const U8 0xFF)) (Some (mk_const U8 0x02))
       = Inr (mk_const U8 (- 1))
   \<and> get_val (mk_const U8 (- 1)) = 0xFF
   \<and> Math_eval Math_init I_DIV (Some (mk_const U8 0xFF)) (Some (mk_const U8 0x02)) = Inr 0x7F"
  by (simp add: trunc_div_def signed_val_def get_val_def mk_const_def Math_eval_def evaluate_def
      val_s_def val_u_def wrap_u_def wrap_s_def np_binop_def np_div_def)

lemma signed_val_zero_iff: "signed_val b = 0 \<longleftrightarrow> get_val b = 0"
proof -
  have "get_val b < 2 ^ np_bits (arg_size b)" "0 \<le> get_val b"
    using get_val_range [of b] by simp_all
  then show ?thesis by (auto simp: signed_val_def)
qed

lemma wrap_s_zero: "0 < n \<Longrightarrow> wrap_s n 0 = 0"
  by (rule wrap_s_id) simp_all

text \<open>
  Claim C2, as the code has it. With a divisor whose value is 0, each of \<^verbatim>\<open>I_DIV\<close>,
  \<^verbatim>\<open>I_MOD\<close>, \<^verbatim>\<open>I_SDIV\<close> and \<^verbatim>\<open>I_SMOD\<close> returns 0, at every width and for
  every dividend: numpy does not raise on a zero divisor, and VM.py has no check of its
  own.
\<close>

theorem div_by_zero_returns_zero:
  assumes "get_val b = 0" and "op \<in> {I_DIV, I_MOD, I_SDIV, I_SMOD}"
  shows "Math_eval self op (Some a) (Some b) = Inr 0"
proof -
  have n: "0 < max (np_bits (arg_size a)) (np_bits (arg_size b))"
    using np_bits_pos [of "arg_size a"] by simp
  have u: "unsigned_val b = 0" using assms(1) by (simp add: unsigned_val_def)
  have s: "signed_val b = 0" using assms(1) by (simp add: signed_val_zero_iff)
  from assms(2) consider "op = I_DIV" | "op = I_MOD" | "op = I_SDIV" | "op = I_SMOD" by auto
  then show ?thesis
  proof cases
    case 1
    then show ?thesis
      by (simp add: Math_eval_Some val_u_Some np_binop_def np_div_def u wrap_u_def)
  next
    case 2
    then show ?thesis
      by (simp add: Math_eval_Some val_u_Some np_binop_def np_mod_def u wrap_u_def)
  next
    case 3
    then show ?thesis
      using wrap_s_zero [OF n] by (simp add: Math_eval_Some val_s_Some np_binop_def np_div_def s)
  next
    case 4
    then show ?thesis
      using wrap_s_zero [OF n] by (simp add: Math_eval_Some val_s_Some np_binop_def np_mod_def s)
  qed
qed

theorem div_by_zero_returns_zero_witness:
  "Math_eval Math_init I_MOD (Some (mk_const U16 0x1234)) (Some (mk_const U16 0)) = Inr 0"
  using div_by_zero_returns_zero [of "mk_const U16 0" I_MOD Math_init "mk_const U16 0x1234"]
  by (simp add: get_val_def mk_const_def)

text \<open>Claim C2 as stated fails: dividing by zero returns a value, and no error.\<close>

theorem div_by_zero_counterexample:
  "\<not> isl (Math_eval Math_init I_DIV (Some (mk_const U8 0xFF)) (Some (mk_const U8 0)))
   \<and> Math_eval Math_init I_DIV (Some (mk_const U8 0xFF)) (Some (mk_const U8 0)) = Inr 0
   \<and> Math_eval Math_init I_SDIV (Some (mk_const U32 7)) (Some (mk_const U32 0))
       \<noteq> Inl ZeroDivisionError"
  by (simp add: get_val_def mk_const_def Math_eval_def
      val_s_def val_u_def wrap_u_def wrap_s_def np_binop_def np_div_def)

text \<open>
  Claim C3, as the code has it. For two operands of the same width and a divisor that is
  not zero, \<^verbatim>\<open>I_SMOD\<close> returns the remainder of the division that rounds towards minus
  infinity: it is zero or has the sign of the divisor, not that of the dividend.
\<close>

theorem smod_sign_follows_divisor:
  assumes "arg_size a = W" and "arg_size b = W" and "signed_val b \<noteq> 0"
  shows "\<exists>r. Math_eval self I_SMOD (Some a) (Some b) = Inr r
           \<and> r = signed_val a
                 - signed_val b * \<lfloor>real_of_int (signed_val a) / real_of_int (signed_val b)\<rfloor>
           \<and> (0 < signed_val b \<longrightarrow> 0 \<le> r \<and> r < signed_val b)
           \<and> (signed_val b < 0 \<longrightarrow> signed_val b < r \<and> r \<le> 0)"
proof -
  let ?r = "signed_val a mod signed_val b"
  have "- (2 ^ (np_bits W - 1)) \<le> ?r \<and> ?r < 2 ^ (np_bits W - 1)"
    using signed_val_range [of b] assms by (intro mod_bounds) auto
  then have "wrap_s (np_bits W) ?r = ?r"
    using np_bits_pos [of W] by (simp add: wrap_s_id)
  then have e: "Math_eval self I_SMOD (Some a) (Some b) = Inr ?r"
    using assms by (simp add: Math_eval_Some val_s_Some np_binop_def np_mod_def)
  have f: "?r = signed_val a
                 - signed_val b * \<lfloor>real_of_int (signed_val a) / real_of_int (signed_val b)\<rfloor>"
    by (simp add: floor_divide_of_int_eq minus_mult_div_eq_mod)
  have p: "0 < signed_val b \<longrightarrow> 0 \<le> ?r \<and> ?r < signed_val b" by simp
  have q: "signed_val b < 0 \<longrightarrow> signed_val b < ?r \<and> ?r \<le> 0" by simp
  show ?thesis using e f p q by blast
qed

theorem smod_sign_follows_divisor_witness:
  "Math_eval Math_init I_SMOD (Some (mk_const U8 0xFF)) (Some (mk_const U8 0x02)) = Inr 1"
proof -
  have a: "signed_val (mk_const U8 0xFF) = - 1" by (simp add: signed_val_def get_val_def mk_const_def)
  have b: "signed_val (mk_const U8 0x02) = 2" by (simp add: signed_val_def get_val_def mk_const_def)
  have "\<lfloor>- 1 / (2::real)\<rfloor> = - 1" by simp
  then show ?thesis
    using smod_sign_follows_divisor [of "mk_const U8 0xFF" U8 "mk_const U8 0x02" Math_init] a b
    by (simp add: mk_const_def)
qed

text \<open>
  Claim C3 as stated fails: the remainder whose sign follows the dividend is -1 for
  -1 mod 2; the code gives +1.
\<close>

theorem smod_sign_counterexample:
  "trunc_rem (signed_val (mk_const U8 0xFF)) (signed_val (mk_const U8 0x02)) = - 1
   \<and> Math_eval Math_init I_SMOD (Some (mk_const U8 0xFF)) (Some (mk_const U8 0x02)) = Inr 1
   \<and> evaluate Math_init I_SMOD U8 (Some (mk_const U8 0xFF)) (Some (mk_const U8 0x02))
       = Inr (mk_const U8 1)
   \<and> get_val (mk_const U8 1) \<noteq> 0xFF"
  by (simp add: trunc_rem_def trunc_div_def signed_val_def get_val_def mk_const_def Math_eval_def
      evaluate_def val_s_def val_u_def wrap_u_def wrap_s_def np_binop_def np_mod_def)

subsection \<open>Mem: loops, reads and writes\<close>

lemma range_iff: "(\<exists>i\<in>set [0..<k]. x = a + int i) \<longleftrightarrow> a \<le> x \<and> x < a + int k"
proof
  assume "\<exists>i\<in>set [0..<k]. x = a + int i"
  then show "a \<le> x \<and> x < a + int k" by auto
next
  assume r: "a \<le> x \<and> x < a + int k"
  then have "nat (x - a) \<in> set [0..<k]" "x = a + int (nat (x - a))" by auto
  then show "\<exists>i\<in>set [0..<k]. x = a + int i" by blast
qed

lemma alloc_loop_eq:
  "alloc_loop a data is d =
     (\<lambda>x. if \<exists>i\<in>set is. x = a + int i then Some (alloc_byte data (nat (x - a))) else d x)"
proof (induction "is" arbitrary: d)
  case Nil
  show ?case by simp
next
  case (Cons i "is")
  show ?case by (rule ext) (auto simp: Cons.IH)
qed

lemma alloc_loop_upt:
  "alloc_loop a data [0..<n] d =
     (\<lambda>x. if a \<le> x \<and> x < a + int n then Some (alloc_byte data (nat (x - a))) else d x)"
  by (simp only: alloc_loop_eq range_iff)

lemma alloc_loop_data: "alloc_loop a (Some bs) [0..<length bs] d = overlay a bs d"
  by (rule ext) (auto simp: alloc_loop_upt overlay_def alloc_byte_def)

lemma Mem_alloc_data:
  "Mem_alloc (Some a) None (Some bs) m = (Inr a, m\<lparr>mem_data := overlay a bs (mem_data m)\<rparr>)"
  by (simp add: Mem_alloc_def alloc_loop_data)

lemma write_loop_ok:
  assumes "\<forall>i\<in>set is. d (a + int i) \<noteq> None \<and> i < length bs"
  shows "write_loop a bs is d =
           (Inr (), (\<lambda>x. if \<exists>i\<in>set is. x = a + int i then Some (bs ! nat (x - a)) else d x))"
  using assms
proof (induction "is" arbitrary: d)
  case Nil
  show ?case by simp
next
  case (Cons i "is")
  have step: "write_loop a bs (i # is) d = write_loop a bs is (d(a + int i \<mapsto> bs ! i))"
    using Cons.prems by auto
  have "\<forall>j\<in>set is. (d(a + int i \<mapsto> bs ! i)) (a + int j) \<noteq> None \<and> j < length bs"
    using Cons.prems by auto
  from Cons.IH [OF this]
  have ih: "write_loop a bs is (d(a + int i \<mapsto> bs ! i)) =
      (Inr (), (\<lambda>x. if \<exists>j\<in>set is. x = a + int j then Some (bs ! nat (x - a))
                    else (d(a + int i \<mapsto> bs ! i)) x))" .
  have eq: "(\<lambda>x. if \<exists>j\<in>set is. x = a + int j then Some (bs ! nat (x - a))
                    else (d(a + int i \<mapsto> bs ! i)) x)
          = (\<lambda>x. if \<exists>j\<in>set (i # is). x = a + int j then Some (bs ! nat (x - a)) else d x)"
    by (rule ext) auto
  show ?case by (simp only: step ih eq)
qed

lemma write_loop_append:
  "write_loop a bs (xs @ ys) d =
     (case write_loop a bs xs d of
        (Inr u, d1) \<Rightarrow> write_loop a bs ys d1
      | (Inl e, d1) \<Rightarrow> (Inl e, d1))"
  by (induction xs arbitrary: d) auto

lemma overlay_take:
  assumes "k \<le> length bs"
  shows "(\<lambda>x. if \<exists>i\<in>set [0..<k]. x = a + int i then Some (bs ! nat (x - a)) else d x)
           = overlay a (take k bs) d"
  using assms by (intro ext) (auto simp: overlay_def range_iff simp del: set_upt)

lemma write_loop_all:
  assumes "\<forall>i<n. d (a + int i) \<noteq> None" and "n \<le> length bs"
  shows "write_loop a bs [0..<n] d = (Inr (), overlay a (take n bs) d)"
proof -
  have "\<forall>i\<in>set [0..<n]. d (a + int i) \<noteq> None \<and> i < length bs"
    using assms by auto
  from write_loop_ok [OF this] show ?thesis
    using assms(2) by (simp only: overlay_take)
qed

lemma write_loop_prefix:
  assumes "\<forall>i<k. d (a + int i) \<noteq> None" and "d (a + int k) = None"
    and "k < n" and "k \<le> length bs"
  shows "write_loop a bs [0..<n] d = (Inl (MemWriteError a), overlay a (take k bs) d)"
proof -
  have split: "[0..<n] = [0..<k] @ k # [Suc k..<n]"
    using assms(3) by (metis upt_conv_Cons upt_add_eq_append le0 le_add_diff_inverse less_imp_le_nat plus_nat.add_0)
  have pre: "write_loop a bs [0..<k] d = (Inr (), overlay a (take k bs) d)"
    using assms by (intro write_loop_all) auto
  have undef: "overlay a (take k bs) d (a + int k) = None"
    using assms by (simp add: overlay_def)
  show ?thesis
    by (simp add: split write_loop_append pre undef)
qed

lemma first_undefined:
  assumes "\<exists>i<n. d (a + int i) = None"
  obtains k where "k < n" and "d (a + int k) = None" and "\<forall>i<k. d (a + int i) \<noteq> None"
proof -
  define k where "k = (LEAST i. i < n \<and> d (a + int i) = None)"
  have p: "k < n \<and> d (a + int k) = None"
    unfolding k_def using assms LeastI_ex [of "\<lambda>i. i < n \<and> d (a + int i) = None"] by blast
  have "\<forall>i<k. d (a + int i) \<noteq> None"
  proof (intro allI impI)
    fix i assume "i < k"
    then have "\<not> (i < n \<and> d (a + int i) = None)"
      unfolding k_def using not_less_Least [of i "\<lambda>i. i < n \<and> d (a + int i) = None"] by blast
    then show "d (a + int i) \<noteq> None" using \<open>i < k\<close> p by auto
  qed
  then show thesis using p that by blast
qed

lemma overlay_overlay_take: "overlay a bs (overlay a (take k bs) d) = overlay a bs d"
  by (rule ext) (auto simp: overlay_def)

lemma read_loop_eq:
  "read_loop a is d acc =
     (if \<forall>i\<in>set is. d (a + int i) \<noteq> None
      then Inr (acc @ map (\<lambda>i. the (d (a + int i))) is)
      else Inl (MemReadError a))"
  by (induction "is" arbitrary: acc) (auto split: option.splits)

lemma Mem__read_undefined:
  "undefined_in a n m \<Longrightarrow> Mem__read a n m = Inl (MemReadError a)"
  by (auto simp: Mem__read_def read_loop_eq undefined_in_def)

lemma Mem__read_overlay:
  assumes "nat n \<le> length bs"
  shows "Mem__read a n (m\<lparr>mem_data := overlay a bs d\<rparr>) = Inr (take (nat n) bs)"
proof -
  have "map (\<lambda>i. the (overlay a bs d (a + int i))) [0..<nat n] = take (nat n) bs"
    using assms by (intro nth_equalityI) (auto simp: overlay_def)
  moreover have "\<forall>i\<in>set [0..<nat n]. overlay a bs d (a + int i) \<noteq> None"
    using assms by (auto simp: overlay_def)
  ultimately show ?thesis
    by (simp add: Mem__read_def read_loop_eq del: set_upt)
qed

lemma Mem__write_all:
  assumes "\<not> undefined_in a n m" and "nat n \<le> length bs"
  shows "Mem__write a n bs m = (Inr (), m\<lparr>mem_data := overlay a (take (nat n) bs) (mem_data m)\<rparr>)"
proof -
  have "\<forall>i<nat n. mem_data m (a + int i) \<noteq> None"
    using assms(1) by (simp add: undefined_in_def)
  then show ?thesis
    using assms(2) by (simp add: Mem__write_def write_loop_all)
qed

lemma Mem__write_undefined:
  assumes "undefined_in a n m" and "nat n \<le> length bs"
  obtains k where "k < nat n"
    and "Mem__write a n bs m =
           (Inl (MemWriteError a), m\<lparr>mem_data := overlay a (take k bs) (mem_data m)\<rparr>)"
proof -
  from assms(1) have "\<exists>i<nat n. mem_data m (a + int i) = None"
    by (simp add: undefined_in_def)
  then obtain k where k: "k < nat n" "mem_data m (a + int k) = None"
      "\<forall>i<k. mem_data m (a + int i) \<noteq> None"
    by (rule first_undefined)
  have "write_loop a bs [0..<nat n] (mem_data m)
          = (Inl (MemWriteError a), overlay a (take k bs) (mem_data m))"
    using k assms(2) by (intro write_loop_prefix) auto
  then have "Mem__write a n bs m =
           (Inl (MemWriteError a), m\<lparr>mem_data := overlay a (take k bs) (mem_data m)\<rparr>)"
    by (simp add: Mem__write_def)
  then show thesis using k(1) that by blast
qed

lemma Mem_write_defined:
  assumes "\<not> undefined_in a n m" and "nat n \<le> length bs"
  shows "Mem_write a n bs m = (Inr (), m\<lparr>mem_data := overlay a (take (nat n) bs) (mem_data m)\<rparr>)"
  by (simp add: Mem_write_def Mem__write_all [OF assms])

lemma Mem_write_undefined:
  assumes "undefined_in a n m" and "nat n \<le> length bs"
  obtains k where "k < nat n" and
    "Mem_write a n bs m =
      (let m1 = m\<lparr>mem_data := overlay a (take k bs) (mem_data m)\<rparr>;
           m2 = m\<lparr>mem_data := overlay a bs (mem_data m)\<rparr>
       in if mem_strict m then
            (case mem_reader m of
               None \<Rightarrow> (Inl (MemWriteError a), m1)
             | Some r \<Rightarrow>
                 (case r a n of
                    None \<Rightarrow> (Inl (MemWriteError a), consult a n m1)
                  | Some known \<Rightarrow> (Inr (), consult a n m2)))
          else (Inr (), m2))"
proof -
  obtain k where k: "k < nat n"
    "Mem__write a n bs m =
           (Inl (MemWriteError a), m\<lparr>mem_data := overlay a (take k bs) (mem_data m)\<rparr>)"
    using assms by (rule Mem__write_undefined)
  have "Mem_write a n bs m =
      (let m1 = m\<lparr>mem_data := overlay a (take k bs) (mem_data m)\<rparr>;
           m2 = m\<lparr>mem_data := overlay a bs (mem_data m)\<rparr>
       in if mem_strict m then
            (case mem_reader m of
               None \<Rightarrow> (Inl (MemWriteError a), m1)
             | Some r \<Rightarrow>
                 (case r a n of
                    None \<Rightarrow> (Inl (MemWriteError a), consult a n m1)
                  | Some known \<Rightarrow> (Inr (), consult a n m2)))
          else (Inr (), m2))"
    by (simp add: Mem_write_def k(2) Mem_alloc_data consult_def overlay_overlay_take
        split: option.splits)
  then show thesis using k(1) that by blast
qed

lemma le_bytes_Suc: "le_bytes (Suc n) v = word_of_int v # le_bytes n (v div 256)"
proof -
  have "[0..<Suc n] = 0 # map Suc [0..<n]"
    by (simp add: upt_conv_Cons map_Suc_upt del: upt_Suc)
  then have "le_bytes (Suc n) v
      = word_of_int (v div 256 ^ 0) # map (\<lambda>i. word_of_int (v div 256 ^ Suc i)) [0..<n]"
    by (simp add: le_bytes_def comp_def del: upt_Suc)
  moreover have "\<And>i. v div 256 ^ Suc i = v div 256 div 256 ^ i"
    by (simp add: zdiv_zmult2_eq)
  ultimately show ?thesis by (simp add: le_bytes_def)
qed

lemma length_le_bytes: "length (le_bytes n v) = n"
  by (simp add: le_bytes_def)

lemma le_value_le_bytes: "le_value (le_bytes n v) = v mod 256 ^ n"
proof (induction n arbitrary: v)
  case 0
  show ?case by (simp add: le_bytes_def)
next
  case (Suc n)
  have "uint (word_of_int v :: byte) = v mod 256"
    by (simp add: uint_word_of_int)
  moreover have "v mod (256 * 256 ^ n) = 256 * (v div 256 mod 256 ^ n) + v mod 256"
    by (rule zmod_zmult2_eq) simp
  ultimately show ?case
    by (simp add: le_bytes_Suc Suc.IH)
qed

lemma map_length_bits: "map_length W = Some n \<Longrightarrow> 0 < n \<and> 8 * nat n = width_bits W"
  by (cases W) auto

lemma pack_ok:
  assumes "map_length W = Some n" and "0 \<le> k" and "k < 2 ^ width_bits W"
  shows "pack W k = Inr (le_bytes (nat n) k)"
  using assms map_length_bits [OF assms(1)] by (simp add: pack_def)

lemma unpack_pack:
  assumes "map_length W = Some n" and "0 \<le> k" and "k < 2 ^ width_bits W"
  shows "unpack W (le_bytes (nat n) k) = Inr k"
proof -
  have b: "8 * nat n = width_bits W" "0 < n" using map_length_bits [OF assms(1)] by simp_all
  have "(256::int) ^ nat n = 2 ^ (8 * nat n)"
    by (simp add: power_mult)
  then have "k mod 256 ^ nat n = k" using assms b by simp
  then show ?thesis
    using assms(1) b by (simp add: unpack_def length_le_bytes le_value_le_bytes)
qed

lemma Mem__read_data:
  assumes "mem_data m1 = overlay a bs d" and "nat n \<le> length bs"
  shows "Mem__read a n m1 = Inr (take (nat n) bs)"
proof -
  have "m1 = m1\<lparr>mem_data := overlay a bs d\<rparr>" using assms(1) by simp
  then show ?thesis using Mem__read_overlay [OF assms(2), where a = a and m = m1 and d = d] by simp
qed

lemma Mem_read_data:
  assumes "mem_data m1 = overlay a bs d" and "nat n \<le> length bs"
  shows "Mem_read a n m1 = (Inr (take (nat n) bs), m1)"
  by (simp add: Mem_read_def Mem__read_data [OF assms])

lemma Mem_write_installs:
  assumes "nat n = length bs"
    and "\<not> undefined_in a n m \<or> \<not> mem_strict m
         \<or> (\<exists>r known. mem_reader m = Some r \<and> r a n = Some known)"
  shows "\<exists>m1. Mem_write a n bs m = (Inr (), m1) \<and> mem_data m1 = overlay a bs (mem_data m)"
proof (cases "undefined_in a n m")
  case False
  then show ?thesis
    using Mem_write_defined [of a n m bs] assms(1) by simp
next
  case True
  obtain k where
    "Mem_write a n bs m =
      (let m1 = m\<lparr>mem_data := overlay a (take k bs) (mem_data m)\<rparr>;
           m2 = m\<lparr>mem_data := overlay a bs (mem_data m)\<rparr>
       in if mem_strict m then
            (case mem_reader m of
               None \<Rightarrow> (Inl (MemWriteError a), m1)
             | Some r \<Rightarrow>
                 (case r a n of
                    None \<Rightarrow> (Inl (MemWriteError a), consult a n m1)
                  | Some known \<Rightarrow> (Inr (), consult a n m2)))
          else (Inr (), m2))"
    using True assms(1) by (rule_tac Mem_write_undefined [of a n m bs]) simp_all
  then show ?thesis
    using True assms(2) by (auto simp: Let_def consult_def)
qed

text \<open>
  Claim C4. For a width that has a byte length (U8, U16, U32, U64), a value \<open>k\<close> in
  the range of the width and a memory where the bytes can be written (they are all
  defined, or the memory is lenient, or the reader knows the address),
  \<^verbatim>\<open>store(A, W, k)\<close> succeeds and \<^verbatim>\<open>load(A, W)\<close> on the memory it leaves returns \<open>k\<close>.
\<close>

theorem store_load_roundtrip:
  assumes "map_length W = Some n" and "0 \<le> k" and "k < 2 ^ width_bits W"
    and "\<not> undefined_in A n m \<or> \<not> mem_strict m
         \<or> (\<exists>r known. mem_reader m = Some r \<and> r A n = Some known)"
  shows "\<exists>m1. store A W k m = (Inr (), m1) \<and> load A W m1 = (Inr k, m1)"
proof -
  let ?bs = "le_bytes (nat n) k"
  have len: "nat n = length ?bs" by (simp add: length_le_bytes)
  have st: "store A W k m = Mem_write A n ?bs m"
    using assms(1) pack_ok [OF assms(1-3)] by (simp add: store_def)
  obtain m1 where w: "Mem_write A n ?bs m = (Inr (), m1)"
      and d: "mem_data m1 = overlay A ?bs (mem_data m)"
    using Mem_write_installs [OF len assms(4)] by blast
  have "Mem_read A n m1 = (Inr (take (nat n) ?bs), m1)"
    using d len by (intro Mem_read_data) auto
  then have "Mem_read A n m1 = (Inr ?bs, m1)" using len by simp
  then have "load A W m1 = (Inr k, m1)"
    using assms(1) unpack_pack [OF assms(1-3)] by (simp add: load_def)
  then show ?thesis using st w by simp
qed

text \<open>
  The round trip on an empty lenient memory.
\<close>

theorem store_load_roundtrip_witness:
  "fst (store 0x1000 U32 0xDDCCBBAA (Mem_init None False)) = Inr ()
   \<and> fst (load 0x1000 U32 (snd (store 0x1000 U32 0xDDCCBBAA (Mem_init None False))))
       = Inr 0xDDCCBBAA"
proof -
  have "\<exists>m1. store 0x1000 U32 0xDDCCBBAA (Mem_init None False) = (Inr (), m1)
            \<and> load 0x1000 U32 m1 = (Inr 0xDDCCBBAA, m1)"
    by (rule store_load_roundtrip [of U32 4]) (simp_all add: Mem_init_def)
  then show ?thesis by auto
qed

text \<open>
  Claim C10. In strict mode with no reader, a write to a range whose first \<open>k\<close> bytes
  are defined and whose byte \<open>k\<close> is not raises MemWriteError, and the memory it leaves
  has the first \<open>k\<close> bytes of the new data in place of the old ones: it is the old
  memory overlaid with \<open>take k bs\<close>.
\<close>

theorem failed_write_not_atomic:
  assumes "mem_strict m" and "mem_reader m = None"
    and "k < nat n" and "k \<le> length bs"
    and "\<forall>i<k. mem_data m (addr + int i) \<noteq> None"
    and "mem_data m (addr + int k) = None"
  shows "\<exists>m1. Mem_write addr n bs m = (Inl (MemWriteError addr), m1)
            \<and> mem_data m1 = overlay addr (take k bs) (mem_data m)
            \<and> (\<forall>i<k. mem_data m1 (addr + int i) = Some (bs ! i))"
proof -
  have "write_loop addr bs [0..<nat n] (mem_data m)
          = (Inl (MemWriteError addr), overlay addr (take k bs) (mem_data m))"
    using assms by (intro write_loop_prefix) auto
  then have "Mem_write addr n bs m =
      (Inl (MemWriteError addr), m\<lparr>mem_data := overlay addr (take k bs) (mem_data m)\<rparr>)"
    using assms(1,2) by (simp add: Mem_write_def Mem__write_def)
  moreover have "\<forall>i<k. overlay addr (take k bs) (mem_data m) (addr + int i) = Some (bs ! i)"
    using assms(4) by (simp add: overlay_def)
  ultimately show ?thesis by simp
qed

text \<open>
  A write of two bytes where only the first address is defined: the write fails and the
  first byte has changed from 0x11 to 0xAA.
\<close>

theorem failed_write_not_atomic_witness:
  "fst (Mem_write 0 2 [0xAA, 0xBB] (Mem_init None True\<lparr>mem_data := [0 \<mapsto> 0x11]\<rparr>))
     = Inl (MemWriteError 0)
   \<and> mem_data (snd (Mem_write 0 2 [0xAA, 0xBB] (Mem_init None True\<lparr>mem_data := [0 \<mapsto> 0x11]\<rparr>))) 0
     = Some 0xAA"
proof -
  let ?m = "Mem_init None True\<lparr>mem_data := [0 \<mapsto> 0x11]\<rparr>"
  have "\<exists>m1. Mem_write 0 2 [0xAA, 0xBB] ?m = (Inl (MemWriteError 0), m1)
            \<and> mem_data m1 = overlay 0 (take 1 [0xAA, 0xBB]) (mem_data ?m)
            \<and> (\<forall>i<1. mem_data m1 (0 + int i) = Some ([0xAA, 0xBB] ! i))"
    by (rule failed_write_not_atomic) (simp_all add: Mem_init_def)
  then show ?thesis by auto
qed

lemma Mem_alloc_zero:
  "Mem_alloc (Some a) (Some sz) None m =
     (Inr a, m\<lparr>mem_data := alloc_loop a None [0..<nat sz] (mem_data m)\<rparr>)"
  by (simp add: Mem_alloc_def)

lemma defined_after_alloc:
  assumes "n \<le> sz"
  shows "\<not> undefined_in a n (snd (Mem_alloc (Some a) (Some sz) data m))"
  using assms by (auto simp: Mem_alloc_def undefined_in_def alloc_loop_upt)

lemma Mem_write_vouched:
  assumes "mem_strict m" and "undefined_in addr n m" and "nat n \<le> length bs"
    and "mem_reader m = Some r" and "r addr n = Some known"
  shows "Mem_write addr n bs m
           = (Inr (), (consult addr n m)\<lparr>mem_data := overlay addr bs (mem_data m)\<rparr>)"
proof -
  obtain k where w:
    "Mem_write addr n bs m =
      (let m1 = m\<lparr>mem_data := overlay addr (take k bs) (mem_data m)\<rparr>;
           m2 = m\<lparr>mem_data := overlay addr bs (mem_data m)\<rparr>
       in if mem_strict m then
            (case mem_reader m of
               None \<Rightarrow> (Inl (MemWriteError addr), m1)
             | Some r \<Rightarrow>
                 (case r addr n of
                    None \<Rightarrow> (Inl (MemWriteError addr), consult addr n m1)
                  | Some known \<Rightarrow> (Inr (), consult addr n m2)))
          else (Inr (), m2))"
    using assms(2,3) by (rule_tac Mem_write_undefined [of addr n m bs]) simp_all
  show ?thesis
    using w assms(1,4,5) by (simp add: Let_def consult_def)
qed

text \<open>
  Claim C6, as the code has it. In strict mode, a write to a range that contains an
  undefined byte fails with MemWriteError carrying the address when there is no reader
  or the reader answers \<^verbatim>\<open>None\<close>. When the reader answers anything else, the empty
  string included, the write succeeds: the reader has been consulted once, its answer is
  dropped, and the memory is the old one overlaid with the bytes of the caller. After
  \<^verbatim>\<open>alloc(addr, size)\<close> covering the range the write succeeds through \<^verbatim>\<open>_write\<close>: it
  leaves the allocated memory overlaid with the bytes written, and nothing else changed.
\<close>

theorem strict_write_undefined:
  assumes "mem_strict m" and "undefined_in addr n m" and "nat n \<le> length bs"
  shows "(mem_reader m = None \<longrightarrow> fst (Mem_write addr n bs m) = Inl (MemWriteError addr))
       \<and> (\<forall>r. mem_reader m = Some r \<and> r addr n = None
              \<longrightarrow> fst (Mem_write addr n bs m) = Inl (MemWriteError addr))
       \<and> (\<forall>r known. mem_reader m = Some r \<and> r addr n = Some known
              \<longrightarrow> Mem_write addr n bs m
                    = (Inr (), (consult addr n m)\<lparr>mem_data := overlay addr bs (mem_data m)\<rparr>))
       \<and> (\<forall>sz. n \<le> sz
              \<longrightarrow> (let m1 = snd (Mem_alloc (Some addr) (Some sz) None m)
                   in Mem_write addr n bs m1
                      = (Inr (), m1\<lparr>mem_data := overlay addr (take (nat n) bs) (mem_data m1)\<rparr>)))"
proof -
  obtain k where w:
    "Mem_write addr n bs m =
      (let m1 = m\<lparr>mem_data := overlay addr (take k bs) (mem_data m)\<rparr>;
           m2 = m\<lparr>mem_data := overlay addr bs (mem_data m)\<rparr>
       in if mem_strict m then
            (case mem_reader m of
               None \<Rightarrow> (Inl (MemWriteError addr), m1)
             | Some r \<Rightarrow>
                 (case r addr n of
                    None \<Rightarrow> (Inl (MemWriteError addr), consult addr n m1)
                  | Some known \<Rightarrow> (Inr (), consult addr n m2)))
          else (Inr (), m2))"
    using assms(2,3) by (rule_tac Mem_write_undefined [of addr n m bs]) simp_all
  have a: "mem_reader m = None \<longrightarrow> fst (Mem_write addr n bs m) = Inl (MemWriteError addr)"
    using w assms(1) by (simp add: Let_def)
  have b: "\<forall>r. mem_reader m = Some r \<and> r addr n = None
              \<longrightarrow> fst (Mem_write addr n bs m) = Inl (MemWriteError addr)"
    using w assms(1) by (simp add: Let_def)
  have c: "\<forall>r known. mem_reader m = Some r \<and> r addr n = Some known
              \<longrightarrow> Mem_write addr n bs m
                    = (Inr (), (consult addr n m)\<lparr>mem_data := overlay addr bs (mem_data m)\<rparr>)"
    using Mem_write_vouched [OF assms] by blast
  have d: "\<forall>sz. n \<le> sz
              \<longrightarrow> (let m1 = snd (Mem_alloc (Some addr) (Some sz) None m)
                   in Mem_write addr n bs m1
                      = (Inr (), m1\<lparr>mem_data := overlay addr (take (nat n) bs) (mem_data m1)\<rparr>))"
    using assms(3) by (simp add: Let_def Mem_write_defined defined_after_alloc)
  show ?thesis using a b c d by (intro conjI)
qed

lemma Mem_read_fill:
  assumes "undefined_in addr n m" and "mem_reader m = Some r" and "r addr n = Some data"
  shows "Mem_read addr n m
           = (Inr data, (consult addr n m)\<lparr>mem_data := overlay addr data (mem_data m)\<rparr>)"
  using assms(2,3)
  by (simp add: Mem_read_def Mem__read_undefined [OF assms(1)] Mem_alloc_data consult_def)

text \<open>
  Claim C5, as the code has it. A read of a range that contains an undefined byte fails
  with MemReadError carrying the address when there is no reader or the reader answers
  \<^verbatim>\<open>None\<close>. When the reader answers with data, the data is stored at the address and
  returned; and when the data is at least as long as the range, a second read of the
  range is answered from the dictionary: it leaves the state as it is, \<open>reader_calls\<close>
  included.
\<close>

theorem demand_fill_read:
  assumes "undefined_in addr n m"
  shows "(mem_reader m = None \<longrightarrow> Mem_read addr n m = (Inl (MemReadError addr), m))
       \<and> (\<forall>r. mem_reader m = Some r \<and> r addr n = None
              \<longrightarrow> Mem_read addr n m = (Inl (MemReadError addr), consult addr n m))
       \<and> (\<forall>r data. mem_reader m = Some r \<and> r addr n = Some data
              \<longrightarrow> (let m1 = (consult addr n m)\<lparr>mem_data := overlay addr data (mem_data m)\<rparr>
                   in Mem_read addr n m = (Inr data, m1)
                    \<and> (nat n \<le> length data
                         \<longrightarrow> Mem_read addr n m1 = (Inr (take (nat n) data), m1))))"
proof -
  have u: "Mem__read addr n m = Inl (MemReadError addr)"
    using assms by (rule Mem__read_undefined)
  have a: "mem_reader m = None \<longrightarrow> Mem_read addr n m = (Inl (MemReadError addr), m)"
    by (simp add: Mem_read_def u)
  have b: "\<forall>r. mem_reader m = Some r \<and> r addr n = None
              \<longrightarrow> Mem_read addr n m = (Inl (MemReadError addr), consult addr n m)"
    by (simp add: Mem_read_def u)
  have c: "\<forall>r data. mem_reader m = Some r \<and> r addr n = Some data
              \<longrightarrow> (let m1 = (consult addr n m)\<lparr>mem_data := overlay addr data (mem_data m)\<rparr>
                   in Mem_read addr n m = (Inr data, m1)
                    \<and> (nat n \<le> length data
                         \<longrightarrow> Mem_read addr n m1 = (Inr (take (nat n) data), m1)))"
  proof (intro allI impI)
    fix r data
    assume r: "mem_reader m = Some r \<and> r addr n = Some data"
    let ?m1 = "(consult addr n m)\<lparr>mem_data := overlay addr data (mem_data m)\<rparr>"
    have first: "Mem_read addr n m = (Inr data, ?m1)"
      using r Mem_read_fill [OF assms, of r data] by simp
    have second: "nat n \<le> length data
                  \<longrightarrow> Mem_read addr n ?m1 = (Inr (take (nat n) data), ?m1)"
      by (auto intro!: Mem_read_data [where d = "mem_data m"])
    show "let m1 = ?m1
          in Mem_read addr n m = (Inr data, m1)
           \<and> (nat n \<le> length data \<longrightarrow> Mem_read addr n m1 = (Inr (take (nat n) data), m1))"
      using first second by (simp only: Let_def)
  qed
  show ?thesis using a b c by (intro conjI)
qed

lemma undefined_in_empty: "0 < n \<Longrightarrow> undefined_in a n (Mem_init r s)"
  by (auto simp: undefined_in_def Mem_init_def intro: exI [of _ 0])

text \<open>
  Scenario S6 of the spec, then the store after \<^verbatim>\<open>alloc\<close> with the byte it leaves, and
  the two cases with a reader.
\<close>

theorem strict_write_undefined_witness:
  "fst (store 0x2000 U32 0 (Mem_init None True)) = Inl (MemWriteError 0x2000)
   \<and> fst (store 0x2000 U32 0x11223344
            (snd (Mem_alloc (Some 0x2000) (Some 4) None (Mem_init None True)))) = Inr ()
   \<and> mem_data (snd (store 0x2000 U32 0x11223344
            (snd (Mem_alloc (Some 0x2000) (Some 4) None (Mem_init None True))))) 0x2000
       = Some 0x44
   \<and> reader_calls (snd (store 0x2000 U32 0x11223344
            (snd (Mem_alloc (Some 0x2000) (Some 4) None (Mem_init None True))))) = []
   \<and> fst (store 0x2000 U32 0x11223344 (Mem_init (Some (\<lambda>a n. None)) True))
       = Inl (MemWriteError 0x2000)
   \<and> fst (store 0x2000 U32 0x11223344 (Mem_init (Some (\<lambda>a n. Some [1, 2, 3, 4])) True))
       = Inr ()
   \<and> mem_data (snd (store 0x2000 U32 0x11223344
            (Mem_init (Some (\<lambda>a n. Some [1, 2, 3, 4])) True))) 0x2000 = Some 0x44
   \<and> reader_calls (snd (store 0x2000 U32 0x11223344
            (Mem_init (Some (\<lambda>a n. Some [1, 2, 3, 4])) True))) = [(0x2000, 4)]"
proof -
  have st: "store 0x2000 U32 v m = Mem_write 0x2000 4 (le_bytes 4 v) m"
    if "v = 0 \<or> v = 0x11223344" for m v
    using that by (auto simp: store_def pack_def)
  have len: "nat 4 \<le> length (le_bytes 4 v)" for v by (simp add: length_le_bytes)
  have s: "mem_strict (Mem_init r True)" "mem_reader (Mem_init r True) = r"
    "reader_calls (Mem_init r True) = []" for r
    by (simp_all add: Mem_init_def)
  have u: "undefined_in 0x2000 4 (Mem_init r True)" for r
    by (rule undefined_in_empty) simp
  note t = strict_write_undefined [OF s(1) u len]
  let ?ma = "snd (Mem_alloc (Some 0x2000) (Some 4) None (Mem_init None True))"
  have d: "overlay 0x2000 (le_bytes 4 0x11223344) d 0x2000 = Some 0x44" for d
    by (simp add: overlay_def length_le_bytes) (simp add: le_bytes_def)
  have tk: "take 4 (le_bytes 4 v) = le_bytes 4 v" for v
    by (simp add: length_le_bytes)
  have al: "reader_calls ?ma = []"
    by (simp add: Mem_alloc_def Mem_init_def)
  have c1: "fst (Mem_write 0x2000 4 (le_bytes 4 0) (Mem_init None True))
              = Inl (MemWriteError 0x2000)"
    using t [of None 0, THEN conjunct1] by (simp add: s)
  have c2: "fst (Mem_write 0x2000 4 (le_bytes 4 0x11223344) (Mem_init (Some (\<lambda>a n. None)) True))
              = Inl (MemWriteError 0x2000)"
    using t [of "Some (\<lambda>a n. None)" "0x11223344", THEN conjunct2, THEN conjunct1]
    by (simp add: s)
  have c3: "Mem_write 0x2000 4 (le_bytes 4 0x11223344)
              (Mem_init (Some (\<lambda>a n. Some [1, 2, 3, 4])) True)
            = (Inr (), (consult 0x2000 4 (Mem_init (Some (\<lambda>a n. Some [1, 2, 3, 4])) True))
                \<lparr>mem_data := overlay 0x2000 (le_bytes 4 0x11223344)
                   (mem_data (Mem_init (Some (\<lambda>a n. Some [1, 2, 3, 4])) True))\<rparr>)"
    using t [of "Some (\<lambda>a n. Some [1, 2, 3, 4])" "0x11223344",
        THEN conjunct2, THEN conjunct2, THEN conjunct1]
    by (simp add: s)
  have c4: "Mem_write 0x2000 4 (le_bytes 4 0x11223344) ?ma
            = (Inr (), ?ma\<lparr>mem_data := overlay 0x2000 (le_bytes 4 0x11223344) (mem_data ?ma)\<rparr>)"
    using t [of None "0x11223344", THEN conjunct2, THEN conjunct2, THEN conjunct2,
        THEN spec [where x = 4]]
    by (simp add: Let_def tk)
  show ?thesis
    by (simp add: st c1 c2 c3 c4 d al s consult_def)
qed

text \<open>
  Claim C6 as stated fails twice. A reader that answers with the empty string, that is
  with no data, lets the strict write through, since the code tests for \<^verbatim>\<open>None\<close>
  only; and the write that a reader permits does call \<^verbatim>\<open>reader.read\<close>, so the copy of
  the reader is fetched, though it is not stored.
\<close>

theorem strict_write_empty_answer_counterexample:
  "fst (store 0x2000 U32 0 (Mem_init (Some (\<lambda>a n. Some [])) True)) = Inr ()
   \<and> reader_calls (snd (store 0x2000 U32 0 (Mem_init (Some (\<lambda>a n. Some [1, 2, 3, 4])) True)))
       = [(0x2000, 4)]"
proof -
  have st: "store 0x2000 U32 0 m = Mem_write 0x2000 4 (le_bytes 4 0) m" for m
    by (simp add: store_def pack_def)
  have len: "nat 4 \<le> length (le_bytes 4 0)" by (simp add: length_le_bytes)
  have s: "mem_strict (Mem_init r True)" "mem_reader (Mem_init r True) = r"
    "reader_calls (Mem_init r True) = []" for r
    by (simp_all add: Mem_init_def)
  have u: "undefined_in 0x2000 4 (Mem_init r True)" for r
    by (rule undefined_in_empty) simp
  have e: "Mem_write 0x2000 4 (le_bytes 4 0) (Mem_init (Some (\<lambda>a n. Some known)) True)
      = (Inr (), (consult 0x2000 4 (Mem_init (Some (\<lambda>a n. Some known)) True))
           \<lparr>mem_data := overlay 0x2000 (le_bytes 4 0)
              (mem_data (Mem_init (Some (\<lambda>a n. Some known)) True))\<rparr>)" for known
    using s(1) u len by (rule Mem_write_vouched) (simp_all add: s)
  show ?thesis
    by (simp add: st e s consult_def)
qed

text \<open>
  Scenario S5 of the spec: the reader is consulted once for two reads.
\<close>

theorem demand_fill_read_witness:
  "fst (Mem_read 0x1000 4 (Mem_init (Some (\<lambda>a n. Some [0xAA, 0xBB, 0xCC, 0xDD])) True))
     = Inr [0xAA, 0xBB, 0xCC, 0xDD]
   \<and> reader_calls (snd (Mem_read 0x1000 4
        (Mem_init (Some (\<lambda>a n. Some [0xAA, 0xBB, 0xCC, 0xDD])) True))) = [(0x1000, 4)]
   \<and> fst (Mem_read 0x1000 4 (snd (Mem_read 0x1000 4
        (Mem_init (Some (\<lambda>a n. Some [0xAA, 0xBB, 0xCC, 0xDD])) True))))
     = Inr [0xAA, 0xBB, 0xCC, 0xDD]
   \<and> reader_calls (snd (Mem_read 0x1000 4 (snd (Mem_read 0x1000 4
        (Mem_init (Some (\<lambda>a n. Some [0xAA, 0xBB, 0xCC, 0xDD])) True))))) = [(0x1000, 4)]
   \<and> Mem_read 0x1000 4 (Mem_init None True) = (Inl (MemReadError 0x1000), Mem_init None True)"
proof -
  have s: "mem_reader (Mem_init r True) = r" "reader_calls (Mem_init r True) = []" for r
    by (simp_all add: Mem_init_def)
  have u: "undefined_in 0x1000 4 (Mem_init r True)" for r
    by (rule undefined_in_empty) simp
  show ?thesis
    using demand_fill_read [OF u [of None]]
      demand_fill_read [OF u [of "Some (\<lambda>a n. Some [0xAA, 0xBB, 0xCC, 0xDD])"]]
    by (simp add: s Let_def consult_def)
qed

text \<open>
  Claim C5 as stated fails for a reader that answers with fewer bytes than the range:
  the bytes are stored and returned, and the second read of the range consults the
  reader again.
\<close>

theorem short_reader_counterexample:
  "fst (Mem_read 0x1000 4 (Mem_init (Some (\<lambda>a n. Some [0xAA])) True)) = Inr [0xAA]
   \<and> reader_calls (snd (Mem_read 0x1000 4 (Mem_init (Some (\<lambda>a n. Some [0xAA])) True)))
       = [(0x1000, 4)]
   \<and> reader_calls (snd (Mem_read 0x1000 4 (snd (Mem_read 0x1000 4
        (Mem_init (Some (\<lambda>a n. Some [0xAA])) True)))))
       = [(0x1000, 4), (0x1000, 4)]"
proof -
  let ?r = "\<lambda>(a::int) (n::int). Some [0xAA :: byte]"
  let ?m0 = "Mem_init (Some ?r) True"
  let ?m1 = "(consult 0x1000 4 ?m0)\<lparr>mem_data := overlay 0x1000 [0xAA] (mem_data ?m0)\<rparr>"
  let ?m2 = "(consult 0x1000 4 ?m1)\<lparr>mem_data := overlay 0x1000 [0xAA] (mem_data ?m1)\<rparr>"
  have u0: "undefined_in 0x1000 4 ?m0"
    by (rule undefined_in_empty) simp
  have r0: "Mem_read 0x1000 4 ?m0 = (Inr [0xAA], ?m1)"
    using Mem_read_fill [OF u0, of ?r "[0xAA]"] by (simp add: Mem_init_def)
  have "mem_data ?m1 (0x1000 + int 1) = None"
    by (simp add: overlay_def Mem_init_def consult_def)
  then have u1: "undefined_in 0x1000 4 ?m1"
    unfolding undefined_in_def by (intro exI [of _ 1]) simp
  have r1: "Mem_read 0x1000 4 ?m1 = (Inr [0xAA], ?m2)"
    using Mem_read_fill [OF u1, of ?r "[0xAA]"] by (simp add: Mem_init_def consult_def)
  show ?thesis
    by (simp only: r0 r1 fst_conv snd_conv) (simp add: consult_def Mem_init_def)
qed

subsection \<open>Abi: alignment of buffers\<close>

lemma Mem_alloc_fresh:
  "Mem_alloc None (Some sz) data m =
     (Inr (alloc_last m),
      m\<lparr>alloc_last := alloc_last m + sz,
        mem_data := alloc_loop (alloc_last m) data [0..<nat sz] (mem_data m)\<rparr>)"
  by (simp add: Mem_alloc_def alloc_addr_def)

lemma align_props:
  assumes "0 < ptr_len arch"
  shows "(\<exists>r. align arch v = Inr r \<and> v < r \<and> r \<le> v + ptr_len arch
               \<and> r mod ptr_len arch = 0)
       \<and> align arch (k * ptr_len arch) = Inr ((k + 1) * ptr_len arch)"
proof -
  let ?p = "ptr_len arch"
  let ?r = "v + (?p - v mod ?p)"
  have b: "v mod ?p < ?p" "0 \<le> v mod ?p"
    using assms by simp_all
  have "?r = ?p * (v div ?p) + ?p"
    using minus_mod_eq_mult_div [of v ?p] by linarith
  moreover have "(?p * (v div ?p) + ?p) mod ?p = 0" by simp
  ultimately have m: "?r mod ?p = 0" by (simp only:)
  have a: "align arch v = Inr ?r" using assms by (simp add: align_def)
  have c: "v < ?r" "?r \<le> v + ?p" using b by linarith+
  have first: "\<exists>r. align arch v = Inr r \<and> v < r \<and> r \<le> v + ?p \<and> r mod ?p = 0"
    by (rule exI [of _ ?r]) (simp only: a c m simp_thms)
  have "k * ?p + ?p = (k + 1) * ?p" by (simp add: distrib_right)
  then have second: "align arch (k * ?p) = Inr ((k + 1) * ?p)"
    using assms by (simp add: align_def)
  show ?thesis by (rule conjI [OF first second])
qed

lemma buff_multiple:
  assumes "0 < ptr_len (cpu_arch (abi_cpu abi))"
    and "(case data of Data s \<Rightarrow> int (length s) | Length n \<Rightarrow> n)
           = k * ptr_len (cpu_arch (abi_cpu abi))"
  shows "\<exists>abi1. buff data None fill abi = (Inr (alloc_last (cpu_mem (abi_cpu abi))), abi1)
           \<and> alloc_last (cpu_mem (abi_cpu abi1))
               = alloc_last (cpu_mem (abi_cpu abi)) + (k + 1) * ptr_len (cpu_arch (abi_cpu abi))
           \<and> (\<forall>i < nat ((k + 1) * ptr_len (cpu_arch (abi_cpu abi))).
                 mem_data (cpu_mem (abi_cpu abi1)) (alloc_last (cpu_mem (abi_cpu abi)) + int i)
                   \<noteq> None)"
proof -
  let ?p = "ptr_len (cpu_arch (abi_cpu abi))"
  have "k * ?p + ?p = (k + 1) * ?p" by (simp add: distrib_right)
  then have a: "align (cpu_arch (abi_cpu abi)) (k * ?p) = Inr ((k + 1) * ?p)"
    using assms(1) by (simp add: align_def)
  show ?thesis
    using assms(2) a
    by (auto simp: buff_def with_mem_def Mem_alloc_fresh alloc_loop_upt Let_def)
qed

text \<open>
  Claim C9. With a pointer width above zero, \<^verbatim>\<open>Abi.align\<close> returns a size strictly
  greater than its argument; a multiple \<open>k * ptr_len\<close> of the pointer width becomes
  \<open>(k + 1) * ptr_len\<close>, so that \<^verbatim>\<open>buff\<close>, asked for such a size, allocates one pointer
  width more: the cursor \<open>alloc_last\<close> advances by \<open>(k + 1) * ptr_len\<close> and all these
  bytes are defined.
\<close>

theorem align_never_identity:
  assumes "0 < ptr_len (cpu_arch (abi_cpu abi))"
  shows "(\<exists>r. align (cpu_arch (abi_cpu abi)) v = Inr r \<and> v < r)
       \<and> align (cpu_arch (abi_cpu abi)) (k * ptr_len (cpu_arch (abi_cpu abi)))
           = Inr ((k + 1) * ptr_len (cpu_arch (abi_cpu abi)))
       \<and> ((case data of Data s \<Rightarrow> int (length s) | Length n \<Rightarrow> n)
             = k * ptr_len (cpu_arch (abi_cpu abi))
           \<longrightarrow> (\<exists>abi1. buff data None fill abi
                          = (Inr (alloc_last (cpu_mem (abi_cpu abi))), abi1)
                  \<and> alloc_last (cpu_mem (abi_cpu abi1))
                      = alloc_last (cpu_mem (abi_cpu abi))
                        + (k + 1) * ptr_len (cpu_arch (abi_cpu abi))
                  \<and> (\<forall>i < nat ((k + 1) * ptr_len (cpu_arch (abi_cpu abi))).
                        mem_data (cpu_mem (abi_cpu abi1))
                          (alloc_last (cpu_mem (abi_cpu abi)) + int i) \<noteq> None)))"
proof -
  have a: "\<exists>r. align (cpu_arch (abi_cpu abi)) v = Inr r \<and> v < r"
    using align_props [OF assms, of v k] by blast
  have b: "align (cpu_arch (abi_cpu abi)) (k * ptr_len (cpu_arch (abi_cpu abi)))
           = Inr ((k + 1) * ptr_len (cpu_arch (abi_cpu abi)))"
    using align_props [OF assms, of v k] by blast
  show ?thesis
    using a b buff_multiple [OF assms, of data k fill] by (intro conjI impI)
qed

text \<open>
  On x86: 8 is aligned to 12, and a buffer of 8 bytes takes 12.
\<close>

theorem align_never_identity_witness:
  "align x86 8 = Inr 12
   \<and> fst (buff (Length 8) None None (abi_on (code_at []))) = Inr DEF_ALLOC_BASE
   \<and> alloc_last (cpu_mem (abi_cpu (snd (buff (Length 8) None None (abi_on (code_at []))))))
       = DEF_ALLOC_BASE + 12"
proof -
  have p: "cpu_arch (abi_cpu (abi_on (code_at []))) = x86" "ptr_len x86 = 4"
    "alloc_last (cpu_mem (abi_cpu (abi_on (code_at [])))) = DEF_ALLOC_BASE"
    by (simp_all add: abi_on_def Cpu_init_def x86_def Mem_init_def)
  have q: "0 < ptr_len (cpu_arch (abi_cpu (abi_on (code_at []))))"
    by (simp add: p)
  show ?thesis
    using align_never_identity [OF q, of 8 2 "Length 8" None]
    by (auto simp: p)
qed

subsection \<open>Cpu.run and Abi.call\<close>

lemma canonical_eip: "canonical ''eip'' False = ''R_EIP''"
  by code_simp

lemma canonical_esp: "canonical ''esp'' False = ''R_ESP''"
  by code_simp

lemma defined_in_alloc:
  assumes "a0 \<le> a" and "a + n \<le> a0 + sz"
  shows "\<not> undefined_in a n (snd (Mem_alloc (Some a0) (Some sz) data m))"
  using assms by (auto simp: Mem_alloc_def undefined_in_def alloc_loop_upt)

lemma store_defined:
  assumes "map_length W = Some n" and "0 \<le> v" and "v < 2 ^ width_bits W"
    and "\<not> undefined_in A n m"
  shows "store A W v m
           = (Inr (), m\<lparr>mem_data := overlay A (le_bytes (nat n) v) (mem_data m)\<rparr>)"
proof -
  have "Mem_write A n (le_bytes (nat n) v) m
          = (Inr (), m\<lparr>mem_data := overlay A (take (nat n) (le_bytes (nat n) v)) (mem_data m)\<rparr>)"
    using assms(4) by (intro Mem_write_defined) (simp_all add: length_le_bytes)
  then show ?thesis
    using assms(1) pack_ok [OF assms(1-3)] by (simp add: store_def length_le_bytes)
qed

lemma Stack_init_default:
  "Stack_init isz None None m =
     (Inr \<lparr>stack_size = 0x1000, stack_addr = DEF_STACK_BASE, stack_top = DEF_STACK_BASE + 0x1000,
           stack_bottom = DEF_STACK_BASE + 0x1000, item_size = isz\<rparr>,
      snd (Mem_alloc (Some DEF_STACK_BASE) (Some 0x1000) None m))"
  by (simp add: Stack_init_def Mem_alloc_def)

lemma push_on_fresh_stack:
  assumes "0 \<le> v" and "v < 2 ^ 32"
  shows "\<exists>st1 m1. push v \<lparr>stack_size = 0x1000, stack_addr = DEF_STACK_BASE,
                           stack_top = DEF_STACK_BASE + 0x1000,
                           stack_bottom = DEF_STACK_BASE + 0x1000, item_size = 4\<rparr>
                    (snd (Mem_alloc (Some DEF_STACK_BASE) (Some 0x1000) None m))
                  = (Inr (), st1, m1)
               \<and> stack_top st1 = DEF_STACK_BASE + 0x1000 - 4"
proof -
  let ?m = "snd (Mem_alloc (Some DEF_STACK_BASE) (Some 0x1000) None m)"
  have "\<not> undefined_in (DEF_STACK_BASE + 0x1000 - 4) 4 ?m"
    by (rule defined_in_alloc) simp_all
  then have "store (DEF_STACK_BASE + 0x1000 - 4) U32 v ?m
      = (Inr (), ?m\<lparr>mem_data := overlay (DEF_STACK_BASE + 0x1000 - 4) (le_bytes (nat 4) v) (mem_data ?m)\<rparr>)"
    using assms by (intro store_defined) simp_all
  then show ?thesis
    by (simp add: push_def map_size_def Let_def)
qed

lemma call_prepare_no_args:
  assumes "ptr_len (cpu_arch (abi_cpu abi)) = 4"
  shows "fst (call_prepare [] abi) = Inr ()
       \<and> abi_storage (snd (call_prepare [] abi)) = abi_storage abi"
proof -
  let ?m = "snd (Mem_alloc (Some DEF_STACK_BASE) (Some 0x1000) None (cpu_mem (abi_cpu abi)))"
  let ?st = "\<lparr>stack_size = 0x1000, stack_addr = DEF_STACK_BASE,
                           stack_top = DEF_STACK_BASE + 0x1000,
                           stack_bottom = DEF_STACK_BASE + 0x1000, item_size = 4\<rparr>"
  let ?abi1 = "abi\<lparr>abi_cpu := (abi_cpu abi)\<lparr>cpu_mem := ?m\<rparr>\<rparr>"
  have p: "pushargs [] abi = (Inr ?st, ?abi1)"
    using assms by (simp add: pushargs_def Abi_stack_def with_mem_def Stack_init_default)
  have b: "0 \<le> DUMMY_RET_ADDR" "DUMMY_RET_ADDR < 2 ^ 32"
    by (simp_all add: DUMMY_RET_ADDR_def)
  obtain st1 m1 where q: "push DUMMY_RET_ADDR ?st ?m = (Inr (), st1, m1)"
    using push_on_fresh_stack [OF b, of "cpu_mem (abi_cpu abi)"] by blast
  have "Abi_push DUMMY_RET_ADDR ?st ?abi1
          = (Inr st1, ?abi1\<lparr>abi_cpu := (abi_cpu ?abi1)\<lparr>cpu_mem := m1\<rparr>\<rparr>)"
    by (simp add: Abi_push_def q with_mem_def)
  then show ?thesis
    by (simp add: call_prepare_def p Abi_reg_set_def split: prod.splits)
qed

lemma call_prepare_bad_arg:
  assumes "ptr_len (cpu_arch (abi_cpu abi)) = 4" and "v < 0"
  shows "fst (call_prepare [IntArg v] abi) = Inl StructError"
  using assms
  by (simp add: call_prepare_def pushargs_def Abi_stack_def with_mem_def Stack_init_default
      Abi_push_def push_def map_size_def store_def pack_def Let_def split: prod.splits)

lemma execute_jump:
  "execute (jump_insn a t) s = (Inr (Some (t mod 2 ^ 32)), s)"
  by (simp add: execute_def jump_insn_def no_arg_def Cpu_arg_def mk_const_def insn_jcc_def
      get_val_def)

lemma execute_bad:
  "execute (bad_insn a) s = (Inl (CpuInstructionError a 0), s)"
  by (simp add: execute_def bad_insn_def no_arg_def Cpu_arg_def)

lemma run_step_unknown:
  "get_insn st a = None \<Longrightarrow> run_step st a s = (Inl (CpuReadError a 0), s)"
  by (simp add: run_step_def)

lemma run_step_jump:
  "get_insn st a = Some [jump_insn a t] \<Longrightarrow> run_step st a s = (Inr (t mod 2 ^ 32), reset_temp s)"
  by (simp add: run_step_def execute_jump)

lemma run_step_bad:
  "get_insn st a = Some [bad_insn a] \<Longrightarrow> run_step st a s = (Inl (CpuInstructionError a 0), s)"
  by (simp add: run_step_def execute_bad)

lemma run_loop_2: "run_loop 2 st a s =
  (case run_step st a s of
     (Inl e, s1) \<Rightarrow> Some (e, s1)
   | (Inr n, s1) \<Rightarrow>
       (case run_step st n s1 of
          (Inl e, s2) \<Rightarrow> Some (e, s2)
        | (Inr n2, s2) \<Rightarrow> None))"
  by (simp add: numeral_2_eq_2 split: prod.splits sum.splits)

lemma run_jump_then_fault:
  assumes "get_insn st a = Some [jump_insn a t]" and "get_insn st t = None"
    and "0 \<le> t" and "t < 2 ^ 32"
  shows "Cpu_run 2 st a s
           = Some (CpuReadError t 0, reset_temp (set_ip a (set_storage (Some st) s)))"
  using assms by (simp add: Cpu_run_def run_loop_2 run_step_jump run_step_unknown)

lemma run_jump_then_bad:
  assumes "get_insn st a = Some [jump_insn a t]" and "get_insn st t = Some [bad_insn t]"
    and "0 \<le> t" and "t < 2 ^ 32"
  shows "Cpu_run 2 st a s
           = Some (CpuInstructionError t 0, reset_temp (set_ip a (set_storage (Some st) s)))"
  using assms by (simp add: Cpu_run_def run_loop_2 run_step_jump run_step_bad)

lemma swallowed_iff:
  "swallowed e \<longleftrightarrow>
     (\<exists>n. e = CpuReadError DUMMY_RET_ADDR n) \<or> (\<exists>n. e = CpuInstructionError DUMMY_RET_ADDR n)"
  by (cases e) (auto simp: swallowed_def)

text \<open>
  Claim C7, as the code has it. An exception raised while \<^verbatim>\<open>Abi.call\<close> prepares the
  stack propagates. An exception \<open>e\<close> raised by \<^verbatim>\<open>cpu.run\<close> is swallowed exactly when
  it is a \<^verbatim>\<open>CpuError\<close>, that is a CpuReadError or a CpuInstructionError, whose address is
  \<^verbatim>\<open>DUMMY_RET_ADDR\<close>; every other exception propagates: a \<^verbatim>\<open>CpuError\<close> at another
  address, and an exception of another class at any address.
\<close>

theorem call_swallows_CpuError_at_dummy:
  "(\<forall>e abi1. call_prepare args abi = (Inl e, abi1)
       \<longrightarrow> Abi_call fuel addr args abi = Some (Inl e, abi1))
   \<and> (\<forall>abi3 e s. call_prepare args abi = (Inr (), abi3)
         \<and> Cpu_run fuel (abi_storage abi3) addr (abi_cpu abi3) = Some (e, s)
       \<longrightarrow> Abi_call fuel addr args abi =
             Some (if (\<exists>n. e = CpuReadError DUMMY_RET_ADDR n)
                      \<or> (\<exists>n. e = CpuInstructionError DUMMY_RET_ADDR n)
                   then Inr () else Inl e,
                   abi3\<lparr>abi_cpu := s\<rparr>))"
proof (intro conjI allI impI)
  fix e abi1
  assume "call_prepare args abi = (Inl e, abi1)"
  then show "Abi_call fuel addr args abi = Some (Inl e, abi1)"
    by (simp add: Abi_call_def)
next
  fix abi3 e s
  assume h: "call_prepare args abi = (Inr (), abi3)
     \<and> Cpu_run fuel (abi_storage abi3) addr (abi_cpu abi3) = Some (e, s)"
  then have c: "Abi_call fuel addr args abi
      = Some (if swallowed e then Inr () else Inl e, abi3\<lparr>abi_cpu := s\<rparr>)"
    by (simp add: Abi_call_def)
  show "Abi_call fuel addr args abi =
             Some (if (\<exists>n. e = CpuReadError DUMMY_RET_ADDR n)
                      \<or> (\<exists>n. e = CpuInstructionError DUMMY_RET_ADDR n)
                   then Inr () else Inl e,
                   abi3\<lparr>abi_cpu := s\<rparr>)"
  proof (cases e)
    case (CpuReadError a n)
    then show ?thesis using c by (simp add: swallowed_def)
  next
    case (CpuInstructionError a n)
    then show ?thesis using c by (simp add: swallowed_def)
  qed (use c in \<open>simp_all add: swallowed_def\<close>)
qed

text \<open>
  Claim C8 on the code. The instruction at 0x41414141 jumps to 0x43434343, where the
  storage has no code. \<^verbatim>\<open>Cpu.run\<close> ends with CpuReadError(0x43434343): that is the address
  it was about to execute. The instruction pointer still holds 0x41414141: the
  \<^verbatim>\<open>break\<close> of the taken branch leaves the loop before \<^verbatim>\<open>set_ip\<close>.
\<close>

theorem ip_not_updated_after_branch:
  "map_option (\<lambda>(e, s). (e, map_option reg_val (ip_reg s)))
     (Cpu_run 2 (code_at [(0x41414141, [jump_insn 0x41414141 0x43434343])]) 0x41414141
        (Cpu_init x86 (Mem_init None True)))
   = Some (CpuReadError 0x43434343 0, Some 0x41414141)"
proof -
  let ?st = "code_at [(0x41414141, [jump_insn 0x41414141 0x43434343])]"
  have "Cpu_run 2 ?st 0x41414141 (Cpu_init x86 (Mem_init None True))
          = Some (CpuReadError 0x43434343 0,
                  reset_temp (set_ip 0x41414141
                    (set_storage (Some ?st) (Cpu_init x86 (Mem_init None True)))))"
    by (rule run_jump_then_fault) (simp_all add: code_at_def)
  moreover have "map_option reg_val (ip_reg (reset_temp (set_ip 0x41414141
                    (set_storage (Some ?st) (Cpu_init x86 (Mem_init None True))))))
                 = Some 0x41414141"
    by (simp add: ip_reg_def reset_temp_def set_ip_def set_storage_def Cpu_init_def x86_def
        canonical_eip Cpu_reg_def assign_val_def Let_def)
  ultimately show ?thesis by simp
qed

text \<open>
  The fall-through path of the same loop does call \<^verbatim>\<open>set_ip(next)\<close>, after which the
  register holds \<open>next\<close>.
\<close>

lemma ip_after_set_ip: "map_option reg_val (ip_reg (set_ip v s)) = Some v"
  by (simp add: ip_reg_def set_ip_def Cpu_reg_def assign_val_def Let_def split: option.splits)

lemma Abi_call_after_prepare:
  assumes "fst (call_prepare args abi) = Inr ()"
    and "Cpu_run fuel (abi_storage (snd (call_prepare args abi))) addr
           (abi_cpu (snd (call_prepare args abi))) = Some (e, s)"
  shows "map_option fst (Abi_call fuel addr args abi)
           = Some (if swallowed e then Inr () else Inl e)"
proof -
  obtain abi3 where p: "call_prepare args abi = (Inr (), abi3)"
    using assms(1) by (cases "call_prepare args abi") auto
  have "Cpu_run fuel (abi_storage abi3) addr (abi_cpu abi3) = Some (e, s)"
    using assms(2) by (simp add: p)
  then show ?thesis
    by (simp add: Abi_call_def p)
qed

lemma abi_on_arch: "ptr_len (cpu_arch (abi_cpu (abi_on st))) = 4"
  by (simp add: abi_on_def Cpu_init_def x86_def)

lemma abi_on_storage: "abi_storage (abi_on st) = st"
  by (simp add: abi_on_def)

lemma DUMMY_range: "0 \<le> DUMMY_RET_ADDR" "DUMMY_RET_ADDR < 2 ^ 32" "DUMMY_RET_ADDR \<noteq> 0x41414141"
  by (simp_all add: DUMMY_RET_ADDR_def)

text \<open>
  A function that jumps to \<^verbatim>\<open>DUMMY_RET_ADDR\<close> returns normally; one that jumps to
  an address without code fails with the CpuReadError of that address; an argument that
  does not fit a stack slot fails before the run.
\<close>

theorem call_swallows_CpuError_at_dummy_witness:
  "map_option fst (Abi_call 2 0x41414141 []
      (abi_on (code_at [(0x41414141, [jump_insn 0x41414141 DUMMY_RET_ADDR])])))
     = Some (Inr ())
   \<and> map_option fst (Abi_call 2 0x41414141 []
      (abi_on (code_at [(0x41414141, [jump_insn 0x41414141 0x43434343])])))
     = Some (Inl (CpuReadError 0x43434343 0))
   \<and> map_option fst (Abi_call 2 0x41414141 [IntArg (- 1)]
      (abi_on (code_at [(0x41414141, [jump_insn 0x41414141 DUMMY_RET_ADDR])])))
     = Some (Inl StructError)"
proof -
  let ?st1 = "code_at [(0x41414141, [jump_insn 0x41414141 DUMMY_RET_ADDR])]"
  let ?st2 = "code_at [(0x41414141, [jump_insn 0x41414141 0x43434343])]"
  have prep: "call_prepare [] (abi_on st) = (Inr (), snd (call_prepare [] (abi_on st)))"
      "abi_storage (snd (call_prepare [] (abi_on st))) = st" for st
    using call_prepare_no_args [of "abi_on st"] abi_on_arch [of st]
    by (simp_all add: abi_on_storage) (metis prod.collapse)
  have r1: "Cpu_run 2 ?st1 0x41414141 s
      = Some (CpuReadError DUMMY_RET_ADDR 0,
              reset_temp (set_ip 0x41414141 (set_storage (Some ?st1) s)))" for s
    using DUMMY_range by (intro run_jump_then_fault) (simp_all add: code_at_def)
  have r2: "Cpu_run 2 ?st2 0x41414141 s
      = Some (CpuReadError 0x43434343 0,
              reset_temp (set_ip 0x41414141 (set_storage (Some ?st2) s)))" for s
    by (intro run_jump_then_fault) (simp_all add: code_at_def)
  have bad: "call_prepare [IntArg (- 1)] (abi_on ?st1)
               = (Inl StructError, snd (call_prepare [IntArg (- 1)] (abi_on ?st1)))"
    using call_prepare_bad_arg [of "abi_on ?st1" "- 1"] abi_on_arch [of ?st1]
    by (cases "call_prepare [IntArg (- 1)] (abi_on ?st1)") simp
  have d: "\<not> (\<exists>n. CpuReadError 0x43434343 0 = CpuReadError DUMMY_RET_ADDR n)"
    by (simp add: DUMMY_RET_ADDR_def)
  note t = call_swallows_CpuError_at_dummy [THEN conjunct2, rule_format]
  note t0 = call_swallows_CpuError_at_dummy [THEN conjunct1, rule_format]
  have run1: "Cpu_run 2 (abi_storage (snd (call_prepare [] (abi_on ?st1)))) 0x41414141
                (abi_cpu (snd (call_prepare [] (abi_on ?st1))))
      = Some (CpuReadError DUMMY_RET_ADDR 0,
              reset_temp (set_ip 0x41414141 (set_storage (Some ?st1)
                (abi_cpu (snd (call_prepare [] (abi_on ?st1)))))))"
    by (simp only: prep(2) r1)
  have run2: "Cpu_run 2 (abi_storage (snd (call_prepare [] (abi_on ?st2)))) 0x41414141
                (abi_cpu (snd (call_prepare [] (abi_on ?st2))))
      = Some (CpuReadError 0x43434343 0,
              reset_temp (set_ip 0x41414141 (set_storage (Some ?st2)
                (abi_cpu (snd (call_prepare [] (abi_on ?st2)))))))"
    by (simp only: prep(2) r2)
  have a1: "map_option fst (Abi_call 2 0x41414141 [] (abi_on ?st1)) = Some (Inr ())"
    using t [OF conjI [OF prep(1) run1]] by simp
  have a2: "map_option fst (Abi_call 2 0x41414141 [] (abi_on ?st2))
              = Some (Inl (CpuReadError 0x43434343 0))"
    using t [OF conjI [OF prep(1) run2]] d by simp
  have a3: "map_option fst (Abi_call 2 0x41414141 [IntArg (- 1)] (abi_on ?st1))
              = Some (Inl StructError)"
    using t0 [OF bad, of 2 "0x41414141"] by simp
  show ?thesis by (simp only: a1 a2 a3 simp_thms)
qed

text \<open>
  Claim C7 as stated fails: with an instruction of unknown opcode stored at
  \<^verbatim>\<open>DUMMY_RET_ADDR\<close>, the run raises CpuInstructionError, which is not a CpuReadError,
  and \<^verbatim>\<open>Abi.call\<close> returns normally.
\<close>

theorem call_swallows_instruction_error_counterexample:
  "map_option fst (Cpu_run 2
      (code_at [(0x41414141, [jump_insn 0x41414141 DUMMY_RET_ADDR]),
                (DUMMY_RET_ADDR, [bad_insn DUMMY_RET_ADDR])]) 0x41414141
      (abi_cpu (snd (call_prepare []
        (abi_on (code_at [(0x41414141, [jump_insn 0x41414141 DUMMY_RET_ADDR]),
                          (DUMMY_RET_ADDR, [bad_insn DUMMY_RET_ADDR])]))))))
     = Some (CpuInstructionError DUMMY_RET_ADDR 0)
   \<and> map_option fst (Abi_call 2 0x41414141 []
      (abi_on (code_at [(0x41414141, [jump_insn 0x41414141 DUMMY_RET_ADDR]),
                        (DUMMY_RET_ADDR, [bad_insn DUMMY_RET_ADDR])])))
     = Some (Inr ())"
proof -
  let ?st = "code_at [(0x41414141, [jump_insn 0x41414141 DUMMY_RET_ADDR]),
                      (DUMMY_RET_ADDR, [bad_insn DUMMY_RET_ADDR])]"
  have prep: "fst (call_prepare [] (abi_on ?st)) = Inr ()"
      "abi_storage (snd (call_prepare [] (abi_on ?st))) = ?st"
    using call_prepare_no_args [of "abi_on ?st"] abi_on_arch [of ?st]
    by (simp_all add: abi_on_storage)
  have r: "Cpu_run 2 ?st 0x41414141 s
      = Some (CpuInstructionError DUMMY_RET_ADDR 0,
              reset_temp (set_ip 0x41414141 (set_storage (Some ?st) s)))" for s
    using DUMMY_range by (intro run_jump_then_bad) (simp_all add: code_at_def)
  have "map_option fst (Abi_call 2 0x41414141 [] (abi_on ?st))
          = Some (if swallowed (CpuInstructionError DUMMY_RET_ADDR 0) then Inr ()
                  else Inl (CpuInstructionError DUMMY_RET_ADDR 0))"
    using prep(1) by (rule Abi_call_after_prepare) (simp only: prep(2) r)
  then show ?thesis by (simp add: r swallowed_def)
qed

end
